theory Spec2Isabelle
  imports Complex_Main "HOL-Library.Product_Lexorder"
begin

section \<open>The virtual library: a shallow embedding of \<^verbatim>\<open>virtual_library.js\<close>\<close>

text \<open>
  The script keeps two global arrays, \<^verbatim>\<open>libraryBooks\<close> and \<^verbatim>\<open>libraryUsers\<close>, and a handful of
  functions that read and mutate them. The embedding passes the two arrays explicitly as a
  record, returns the updated record from every mutating function, and turns what a function
  prints with \<^verbatim>\<open>console.log\<close> before it returns into a value of type \<open>outcome\<close>.
  The clock a call reads is an argument of the call, and the time zone of the machine is a
  record \<open>runtime\<close> that the functions working with dates take.
\<close>

subsection \<open>Numbers\<close>

text \<open>
  A JavaScript number is an IEEE double: \<^verbatim>\<open>NaN\<close>, the two infinities, or a finite value,
  kept here as the rational it stands for (one zero for both signed zeros, which no
  operation of the script tells apart). Of the arithmetic only comparison and the sign of
  a difference are used, and on finite doubles both are those of the rationals.
\<close>

datatype jsnum = NaN | NegInf | Fin rat | PosInf

text \<open>\<^verbatim>\<open>a < b\<close>: false when either side is \<^verbatim>\<open>NaN\<close>.\<close>

fun num_lt :: "jsnum \<Rightarrow> jsnum \<Rightarrow> bool" where
  "num_lt NaN b = False"
| "num_lt a NaN = False"
| "num_lt NegInf NegInf = False"
| "num_lt NegInf b = True"
| "num_lt (Fin x) NegInf = False"
| "num_lt (Fin x) (Fin y) = (x < y)"
| "num_lt (Fin x) PosInf = True"
| "num_lt PosInf b = False"

text \<open>\<^verbatim>\<open>a >= b\<close>: false when either side is \<^verbatim>\<open>NaN\<close>.\<close>

definition num_ge :: "jsnum \<Rightarrow> jsnum \<Rightarrow> bool" where
  "num_ge a b = (a \<noteq> NaN \<and> b \<noteq> NaN \<and> \<not> num_lt a b)"

text \<open>
  \<^verbatim>\<open>a - b\<close>. The difference of two finite doubles is rounded, but it has the sign of the exact
  difference, which is all the sort looks at.
\<close>

fun num_sub :: "jsnum \<Rightarrow> jsnum \<Rightarrow> jsnum" where
  "num_sub NaN b = NaN"
| "num_sub a NaN = NaN"
| "num_sub PosInf PosInf = NaN"
| "num_sub PosInf b = PosInf"
| "num_sub NegInf NegInf = NaN"
| "num_sub NegInf b = NegInf"
| "num_sub (Fin x) PosInf = NegInf"
| "num_sub (Fin x) NegInf = PosInf"
| "num_sub (Fin x) (Fin y) = Fin (x - y)"

text \<open>\<^verbatim>\<open>a > 0\<close>.\<close>

definition num_pos :: "jsnum \<Rightarrow> bool" where
  "num_pos a = num_lt (Fin 0) a"

subsection \<open>Values\<close>

text \<open>
  The primitive values a field of a book or a search argument can hold; objects and
  symbols are outside the model.
\<close>

datatype jsval = JUndefined | JNull | JBool bool | JNum jsnum | JStr string

text \<open>\<^verbatim>\<open>!v\<close> is \<open>\<not> truthy v\<close> (ToBoolean): zero and \<^verbatim>\<open>NaN\<close> are falsy numbers.\<close>

fun truthy :: "jsval \<Rightarrow> bool" where
  "truthy JUndefined = False"
| "truthy JNull = False"
| "truthy (JBool b) = b"
| "truthy (JNum n) = (n \<noteq> NaN \<and> n \<noteq> Fin 0)"
| "truthy (JStr s) = (s \<noteq> [])"

text \<open>\<^verbatim>\<open>typeof v === 'number'\<close>: true of \<^verbatim>\<open>NaN\<close> and the infinities too.\<close>

fun is_number :: "jsval \<Rightarrow> bool" where
  "is_number (JNum n) = True"
| "is_number v = False"

text \<open>\<^verbatim>\<open>a === b\<close>: equality of primitive values, but \<^verbatim>\<open>NaN\<close> is equal to nothing.\<close>

definition strict_eq :: "jsval \<Rightarrow> jsval \<Rightarrow> bool" where
  "strict_eq a b = (a = b \<and> a \<noteq> JNum NaN)"

subsection \<open>Strings\<close>

text \<open>
  A character is a UTF-16 code unit below 256, that is a character of Latin-1; strings
  with other code units are outside the model. \<^verbatim>\<open>String.prototype.toLowerCase\<close> maps the
  capital letters of that range, \<open>A\<close> to \<open>Z\<close> and \<open>0xC0\<close> to \<open>0xDE\<close> without the
  multiplication sign \<open>0xD7\<close>, to the code unit 32 higher and leaves the rest.
\<close>

definition lower_char :: "char \<Rightarrow> char" where
  "lower_char c =
     (case map_of
             (zip (''ABCDEFGHIJKLMNOPQRSTUVWXYZ'' @
                   [CHR 0xC0, CHR 0xC1, CHR 0xC2, CHR 0xC3, CHR 0xC4, CHR 0xC5, CHR 0xC6,
                    CHR 0xC7, CHR 0xC8, CHR 0xC9, CHR 0xCA, CHR 0xCB, CHR 0xCC, CHR 0xCD,
                    CHR 0xCE, CHR 0xCF, CHR 0xD0, CHR 0xD1, CHR 0xD2, CHR 0xD3, CHR 0xD4,
                    CHR 0xD5, CHR 0xD6, CHR 0xD8, CHR 0xD9, CHR 0xDA, CHR 0xDB, CHR 0xDC,
                    CHR 0xDD, CHR 0xDE])
                  (''abcdefghijklmnopqrstuvwxyz'' @
                   [CHR 0xE0, CHR 0xE1, CHR 0xE2, CHR 0xE3, CHR 0xE4, CHR 0xE5, CHR 0xE6,
                    CHR 0xE7, CHR 0xE8, CHR 0xE9, CHR 0xEA, CHR 0xEB, CHR 0xEC, CHR 0xED,
                    CHR 0xEE, CHR 0xEF, CHR 0xF0, CHR 0xF1, CHR 0xF2, CHR 0xF3, CHR 0xF4,
                    CHR 0xF5, CHR 0xF6, CHR 0xF8, CHR 0xF9, CHR 0xFA, CHR 0xFB, CHR 0xFC,
                    CHR 0xFD, CHR 0xFE]))
             c of
        Some d \<Rightarrow> d
      | None \<Rightarrow> c)"

definition toLowerCase :: "string \<Rightarrow> string" where
  "toLowerCase s = map lower_char s"

text \<open>
  \<^verbatim>\<open>v.toLowerCase()\<close> on a value: only a string has the method; on every other value the
  call throws a TypeError, which is \<open>None\<close> here.
\<close>

fun val_toLowerCase :: "jsval \<Rightarrow> string option" where
  "val_toLowerCase (JStr s) = Some (toLowerCase s)"
| "val_toLowerCase v = None"

text \<open>\<^verbatim>\<open>s.includes(t)\<close>: \<open>t\<close> occurs in \<open>s\<close> as a contiguous run of characters.\<close>

fun starts_with :: "string \<Rightarrow> string \<Rightarrow> bool" where
  "starts_with s [] = True"
| "starts_with [] (c # t) = False"
| "starts_with (d # s) (c # t) = (d = c \<and> starts_with s t)"

fun str_includes :: "string \<Rightarrow> string \<Rightarrow> bool" where
  "str_includes [] t = (t = [])"
| "str_includes (d # s) t = (starts_with (d # s) t \<or> str_includes s t)"

subsection \<open>Conversions between numbers and strings\<close>

text \<open>
  \<^verbatim>\<open>String(v)\<close> of a number and the conversion \<^verbatim>\<open>>=\<close> applies to a string are the
  runtime's, not the script's, and are taken as a parameter. They are partial: \<open>None\<close>
  where the conversions at hand do not say what the runtime's result is. A call whose result
  depends on such a conversion has the outcome \<open>Unmodelled\<close>, so the model never answers
  with a value the runtime would not give.
\<close>

record conversions =
  numberToString :: "jsnum \<Rightarrow> string option"
  stringToNumber :: "string \<Rightarrow> jsnum option"

text \<open>\<^verbatim>\<open>String(v)\<close>.\<close>

fun to_string :: "conversions \<Rightarrow> jsval \<Rightarrow> string option" where
  "to_string cv JUndefined = Some ''undefined''"
| "to_string cv JNull = Some ''null''"
| "to_string cv (JBool b) = Some (if b then ''true'' else ''false'')"
| "to_string cv (JNum n) = numberToString cv n"
| "to_string cv (JStr s) = Some s"

text \<open>ToNumber, as \<^verbatim>\<open>>=\<close> applies it to its left operand.\<close>

fun to_number :: "conversions \<Rightarrow> jsval \<Rightarrow> jsnum option" where
  "to_number cv JUndefined = Some NaN"
| "to_number cv JNull = Some (Fin 0)"
| "to_number cv (JBool b) = Some (Fin (if b then 1 else 0))"
| "to_number cv (JNum n) = Some n"
| "to_number cv (JStr s) = stringToNumber cv s"

text \<open>The conversions that cover nothing.\<close>

definition no_conversions :: conversions where
  "no_conversions = \<lparr>numberToString = (\<lambda>n. None), stringToNumber = (\<lambda>s. None)\<rparr>"

subsection \<open>Dates\<close>

text \<open>
  What the script takes from the machine it runs on: the offset of local time from UTC, in
  milliseconds, at a UTC instant (\<open>tza\<close>) and at a local wall-clock time (\<open>tzaLocal\<close>).
\<close>

record runtime =
  tza :: "int \<Rightarrow> int"
  tzaLocal :: "int \<Rightarrow> int"

text \<open>
  A \<^verbatim>\<open>Date\<close> is its time value: milliseconds since the epoch, an integer. \<open>LocalTime\<close> and
  \<open>UTC\<close> are the conversions of the language definition. The time values the script
  meets (the clock, and the clock plus fourteen days) are far inside the range of valid
  dates, so no date is invalid and the division by the length of a day is exact.
\<close>

definition msPerDay :: int where
  "msPerDay = 1000 * 60 * 60 * 24"

definition LocalTime :: "runtime \<Rightarrow> int \<Rightarrow> int" where
  "LocalTime env t = t + tza env t"

definition UTC :: "runtime \<Rightarrow> int \<Rightarrow> int" where
  "UTC env t = t - tzaLocal env t"

text \<open>
  \<^verbatim>\<open>d.setHours(0, 0, 0, 0)\<close>: the local time of \<open>d\<close> with the time within the day set to
  zero, converted back.
\<close>

definition setHours0 :: "runtime \<Rightarrow> int \<Rightarrow> int" where
  "setHours0 env t = UTC env (LocalTime env t div msPerDay * msPerDay)"

text \<open>The number of the local calendar day an instant falls on.\<close>

definition localDay :: "runtime \<Rightarrow> int \<Rightarrow> int" where
  "localDay env t = LocalTime env t div msPerDay"

text \<open>
  \<^verbatim>\<open>calculateDueDate\<close>: a copy of the borrow date whose day of the month is set to
  \<^verbatim>\<open>borrowDate.getDate() + 14\<close>. \<^verbatim>\<open>setDate\<close> builds the new local time from the year and month
  of the old one, the given day of the month and the old time within the day; a day of the
  month past the end of the month runs on into the next one, so the new local time is the
  old one plus fourteen days.
\<close>

definition calculateDueDate :: "runtime \<Rightarrow> int \<Rightarrow> int" where
  "calculateDueDate env borrowDate = UTC env (LocalTime env borrowDate + 14 * msPerDay)"

text \<open>\<^verbatim>\<open>Math.ceil(a / b)\<close> on integers, \<open>b\<close> positive.\<close>

definition ceil_div :: "int \<Rightarrow> int \<Rightarrow> int" where
  "ceil_div a b = - ((- a) div b)"

subsection \<open>Books, borrow entries, users\<close>

text \<open>
  The fields of a stored book are whatever \<^verbatim>\<open>addBook\<close> copied from its argument, so they
  are values; \<^verbatim>\<open>rating\<close> has passed \<^verbatim>\<open>typeof\<close> and is a number, which may be \<^verbatim>\<open>NaN\<close>. The
  field \<^verbatim>\<open>id\<close> is \<open>book_id\<close> here. Counters are JavaScript numbers used as integers; they
  stay far below \<open>2\<^sup>5\<^sup>3\<close>, where integer arithmetic on doubles is exact.
\<close>

record book =
  book_id :: jsval
  title :: jsval
  author :: jsval
  genre :: jsval
  rating :: jsnum
  publicationYear :: jsval
  isAvailable :: bool
  borrowCount :: int

record borrowEntry =
  bookId :: jsval
  borrowDate :: int
  dueDate :: int

record user =
  user_id :: string
  name :: string
  borrowedBooks :: "borrowEntry list"
  penaltyPoints :: int

record library =
  libraryBooks :: "book list"
  libraryUsers :: "user list"

text \<open>The argument of \<^verbatim>\<open>addBook\<close>: an object whose properties may hold anything or be absent.\<close>

record candidate =
  cand_id :: jsval
  cand_title :: jsval
  cand_author :: jsval
  cand_genre :: jsval
  cand_rating :: jsval
  cand_publicationYear :: jsval

text \<open>
  What a call reports. Each error stands for the \<^verbatim>\<open>console.log("Error: ...")\<close> line of one
  early return:
  \<^item> \<open>ValidationError\<close>: "Book must have id, title, author, genre, rating, and publicationYear."
  \<^item> \<open>DuplicateIdError\<close>: "Book with ID ... already exists."
  \<^item> \<open>UserNotFound\<close>: "User ... not found."
  \<^item> \<open>BookNotFound\<close>: "Book with ID ... not found."
  \<^item> \<open>BookUnavailable\<close>: "... is currently unavailable."
  \<^item> \<open>AlreadyBorrowed\<close>: "... has already borrowed ..."
  \<^item> \<open>NotBorrowedByUser\<close>: "... did not borrow ..."
  \<^item> \<open>BookCurrentlyBorrowed\<close>: "Cannot remove ... as it is currently borrowed."
  \<^item> \<open>InvalidQuery\<close>: "Rating search value must be a number.", "Year search value must be a
    number." and "Invalid search parameter ...".

  \<open>TypeError\<close> is the exception a method call on a value without that method throws;
  \<open>Success\<close> is every other run of the script. \<open>Unmodelled\<close> is no outcome of the script:
  the model gives it where the run depends on a conversion it has not been given.
\<close>

datatype outcome =
    Success
  | ValidationError
  | DuplicateIdError
  | UserNotFound
  | BookNotFound
  | BookUnavailable
  | AlreadyBorrowed
  | NotBorrowedByUser
  | BookCurrentlyBorrowed
  | InvalidQuery
  | TypeError
  | Unmodelled

subsection \<open>Helper functions\<close>

text \<open>
  \<^verbatim>\<open>Array.prototype.findIndex\<close>, with \<open>None\<close> for \<^verbatim>\<open>-1\<close>. \<^verbatim>\<open>find\<close> returns a reference to
  the element it finds, which the callers then mutate; the reference is the position.
\<close>

fun find_index :: "('a \<Rightarrow> bool) \<Rightarrow> 'a list \<Rightarrow> nat option" where
  "find_index P [] = None"
| "find_index P (x # xs) = (if P x then Some 0 else map_option Suc (find_index P xs))"

definition findBookById :: "jsval \<Rightarrow> library \<Rightarrow> nat option" where
  "findBookById bId s = find_index (\<lambda>b. strict_eq (book_id b) bId) (libraryBooks s)"

definition findUserByName :: "string \<Rightarrow> library \<Rightarrow> nat option" where
  "findUserByName userName s =
     find_index (\<lambda>u. toLowerCase (name u) = toLowerCase userName) (libraryUsers s)"

text \<open>\<^verbatim>\<open>xs.splice(i, 1)\<close>.\<close>

definition splice1 :: "nat \<Rightarrow> 'a list \<Rightarrow> 'a list" where
  "splice1 i xs = take i xs @ drop (Suc i) xs"

definition checkOverdueStatus :: "runtime \<Rightarrow> int \<Rightarrow> borrowEntry \<Rightarrow> bool \<times> int" where
  "checkOverdueStatus env now entry =
     (let today = setHours0 env now;
          due = setHours0 env (dueDate entry)
      in if today > due
         then (True, ceil_div \<bar>today - due\<bar> msPerDay)
         else (False, 0))"

subsection \<open>Core functionality\<close>

definition addBook :: "candidate \<Rightarrow> library \<Rightarrow> outcome \<times> library" where
  "addBook c s =
     (if \<not> truthy (cand_id c) \<or> \<not> truthy (cand_title c) \<or> \<not> truthy (cand_author c)
         \<or> \<not> truthy (cand_genre c) \<or> \<not> is_number (cand_rating c)
         \<or> \<not> truthy (cand_publicationYear c)
      then (ValidationError, s)
      else if findBookById (cand_id c) s \<noteq> None
      then (DuplicateIdError, s)
      else (Success,
            s\<lparr>libraryBooks := libraryBooks s @
                [\<lparr>book_id = cand_id c, title = cand_title c, author = cand_author c,
                  genre = cand_genre c,
                  rating = (case cand_rating c of JNum n \<Rightarrow> n | _ \<Rightarrow> NaN),
                  publicationYear = cand_publicationYear c,
                  isAvailable = True, borrowCount = 0\<rparr>]\<rparr>))"

text \<open>
  \<open>now\<close> is what \<^verbatim>\<open>new Date()\<close> reads from the clock during the call.
\<close>

definition borrowBook :: "runtime \<Rightarrow> int \<Rightarrow> string \<Rightarrow> jsval \<Rightarrow> library \<Rightarrow> outcome \<times> library" where
  "borrowBook env now userName bId s =
     (case findUserByName userName s of
        None \<Rightarrow> (UserNotFound, s)
      | Some ui \<Rightarrow>
          (case findBookById bId s of
             None \<Rightarrow> (BookNotFound, s)
           | Some bi \<Rightarrow>
               (let usr = libraryUsers s ! ui;
                    bk = libraryBooks s ! bi
                in if \<not> isAvailable bk then (BookUnavailable, s)
                   else if list_ex (\<lambda>entry. strict_eq (bookId entry) bId) (borrowedBooks usr)
                   then (AlreadyBorrowed, s)
                   else
                     (let bk' = bk\<lparr>isAvailable := False, borrowCount := borrowCount bk + 1\<rparr>;
                          due = calculateDueDate env now;
                          usr' = usr\<lparr>borrowedBooks := borrowedBooks usr @
                                   [\<lparr>bookId = book_id bk, borrowDate = now, dueDate = due\<rparr>]\<rparr>
                      in (Success,
                          s\<lparr>libraryBooks := (libraryBooks s)[bi := bk'],
                            libraryUsers := (libraryUsers s)[ui := usr']\<rparr>)))))"

definition returnBook :: "runtime \<Rightarrow> int \<Rightarrow> string \<Rightarrow> jsval \<Rightarrow> library \<Rightarrow> outcome \<times> library" where
  "returnBook env now userName bId s =
     (case findUserByName userName s of
        None \<Rightarrow> (UserNotFound, s)
      | Some ui \<Rightarrow>
          (case findBookById bId s of
             None \<Rightarrow> (BookNotFound, s)
           | Some bi \<Rightarrow>
               (let usr = libraryUsers s ! ui;
                    bk = libraryBooks s ! bi
                in case find_index (\<lambda>entry. strict_eq (bookId entry) bId) (borrowedBooks usr) of
                     None \<Rightarrow> (NotBorrowedByUser, s)
                   | Some borrowIndex \<Rightarrow>
                       (let entry = borrowedBooks usr ! borrowIndex;
                            (isOverdue, daysOverdue) = checkOverdueStatus env now entry;
                            bk' = bk\<lparr>isAvailable := True\<rparr>;
                            usr' = usr\<lparr>borrowedBooks := splice1 borrowIndex (borrowedBooks usr)\<rparr>;
                            usr'' = (if isOverdue
                                     then usr'\<lparr>penaltyPoints := penaltyPoints usr' + daysOverdue * 5\<rparr>
                                     else usr')
                        in (Success,
                            s\<lparr>libraryBooks := (libraryBooks s)[bi := bk'],
                              libraryUsers := (libraryUsers s)[ui := usr'']\<rparr>)))))"

definition removeBook :: "jsval \<Rightarrow> library \<Rightarrow> outcome \<times> library" where
  "removeBook bId s =
     (case find_index (\<lambda>b. strict_eq (book_id b) bId) (libraryBooks s) of
        None \<Rightarrow> (BookNotFound, s)
      | Some bookIndex \<Rightarrow>
          (let bookToRemove = libraryBooks s ! bookIndex
           in if \<not> isAvailable bookToRemove then (BookCurrentlyBorrowed, s)
              else (Success, s\<lparr>libraryBooks := splice1 bookIndex (libraryBooks s)\<rparr>)))"

subsection \<open>Sorting and slicing\<close>

text \<open>
  \<^verbatim>\<open>xs.sort(cmp)\<close>. For a comparator that is a consistent order the language fixes the
  result, the stable arrangement in that order, and leaves the algorithm open; insertion
  from the right computes it. An element moves past those the comparator puts before it
  (\<^verbatim>\<open>cmp(x, y) > 0\<close>) and stops at the first it does not; a comparator result of \<^verbatim>\<open>NaN\<close>
  counts as zero. Where the comparator is no consistent order (a \<^verbatim>\<open>NaN\<close> key among
  different finite ones) the language leaves the arrangement to the implementation, and
  insertion from the right is one.
\<close>

fun js_insert :: "('a \<Rightarrow> 'a \<Rightarrow> jsnum) \<Rightarrow> 'a \<Rightarrow> 'a list \<Rightarrow> 'a list" where
  "js_insert cmp x [] = [x]"
| "js_insert cmp x (y # ys) =
     (if num_pos (cmp x y) then y # js_insert cmp x ys else x # y # ys)"

definition js_sort :: "('a \<Rightarrow> 'a \<Rightarrow> jsnum) \<Rightarrow> 'a list \<Rightarrow> 'a list" where
  "js_sort cmp xs = foldr (js_insert cmp) xs []"

text \<open>
  \<^verbatim>\<open>xs.slice(0, e)\<close> for an integer \<open>e\<close>: a negative end counts from the end of the array.
\<close>

definition js_slice0 :: "'a list \<Rightarrow> int \<Rightarrow> 'a list" where
  "js_slice0 xs e =
     (let len = int (length xs);
          final = (if e < 0 then max (len + e) 0 else min e len)
      in take (nat final) xs)"

text \<open>
  \<^verbatim>\<open>xs.filter(f)\<close> for a callback that may not return: the first element on which it does
  not ends the call with that outcome.
\<close>

fun filter_throw :: "('a \<Rightarrow> outcome + bool) \<Rightarrow> 'a list \<Rightarrow> outcome + 'a list" where
  "filter_throw f [] = Inr []"
| "filter_throw f (x # xs) =
     (case f x of
        Inl e \<Rightarrow> Inl e
      | Inr keep \<Rightarrow>
          (case filter_throw f xs of
             Inl e \<Rightarrow> Inl e
           | Inr r \<Rightarrow> Inr (if keep then x # r else r)))"

subsection \<open>Queries\<close>

text \<open>
  The queries return an array and print; the model returns the outcome and the elements of
  the array. Where an exception ends the call nothing is returned, and the list is empty.
\<close>

text \<open>
  The callbacks of \<^verbatim>\<open>searchBooksBy\<close>. In
  \<^verbatim>\<open>book.author.toLowerCase().includes(String(value).toLowerCase())\<close> the method call on the
  author comes first, then the conversion of the value.
\<close>

definition author_matches :: "conversions \<Rightarrow> jsval \<Rightarrow> book \<Rightarrow> outcome + bool" where
  "author_matches cv val book =
     (case val_toLowerCase (author book) of
        None \<Rightarrow> Inl TypeError
      | Some a \<Rightarrow>
          (case to_string cv val of
             None \<Rightarrow> Inl Unmodelled
           | Some t \<Rightarrow> Inr (str_includes a (toLowerCase t))))"

definition genre_matches :: "conversions \<Rightarrow> jsval \<Rightarrow> book \<Rightarrow> outcome + bool" where
  "genre_matches cv val book =
     (case val_toLowerCase (genre book) of
        None \<Rightarrow> Inl TypeError
      | Some g \<Rightarrow>
          (case to_string cv val of
             None \<Rightarrow> Inl Unmodelled
           | Some t \<Rightarrow> Inr (g = toLowerCase t)))"

text \<open>\<^verbatim>\<open>book.publicationYear >= value\<close> for a number \<open>value\<close>.\<close>

definition year_matches :: "conversions \<Rightarrow> jsnum \<Rightarrow> book \<Rightarrow> outcome + bool" where
  "year_matches cv v book =
     (case to_number cv (publicationYear book) of
        None \<Rightarrow> Inl Unmodelled
      | Some y \<Rightarrow> Inr (num_ge y v))"

definition searchBooksBy :: "conversions \<Rightarrow> string \<Rightarrow> jsval \<Rightarrow> library \<Rightarrow> outcome \<times> book list" where
  "searchBooksBy cv param val s =
     (let p = toLowerCase param in
      if p = ''author'' then
        (case filter_throw (author_matches cv val) (libraryBooks s) of
           Inl e \<Rightarrow> (e, [])
         | Inr results \<Rightarrow> (Success, results))
      else if p = ''genre'' then
        (case filter_throw (genre_matches cv val) (libraryBooks s) of
           Inl e \<Rightarrow> (e, [])
         | Inr results \<Rightarrow> (Success, results))
      else if p = ''rating'' then
        (case val of
           JNum v \<Rightarrow> (Success, filter (\<lambda>book. num_ge (rating book) v) (libraryBooks s))
         | _ \<Rightarrow> (InvalidQuery, []))
      else if p = ''year'' then
        (case val of
           JNum v \<Rightarrow>
             (case filter_throw (year_matches cv v) (libraryBooks s) of
                Inl e \<Rightarrow> (e, [])
              | Inr results \<Rightarrow> (Success, results))
         | _ \<Rightarrow> (InvalidQuery, []))
      else (InvalidQuery, []))"

text \<open>The comparators \<^verbatim>\<open>(a, b) => b.rating - a.rating\<close> and \<^verbatim>\<open>(a, b) => b.borrowCount - a.borrowCount\<close>.\<close>

definition by_rating :: "book \<Rightarrow> book \<Rightarrow> jsnum" where
  "by_rating a b = num_sub (rating b) (rating a)"

definition by_borrowCount :: "book \<Rightarrow> book \<Rightarrow> jsnum" where
  "by_borrowCount a b = Fin (of_int (borrowCount b - borrowCount a))"

definition getTopRatedBooks :: "int \<Rightarrow> library \<Rightarrow> book list" where
  "getTopRatedBooks limit s =
     (let sortedBooks = js_sort by_rating (libraryBooks s);
          topBooks = js_slice0 sortedBooks limit
      in topBooks)"

definition getMostPopularBooks :: "int \<Rightarrow> library \<Rightarrow> book list" where
  "getMostPopularBooks limit s =
     (let sortedBooks = js_sort by_borrowCount (libraryBooks s);
          topBooks = js_slice0 sortedBooks limit
      in topBooks)"

text \<open>
  The genres of the books a user holds: \<^verbatim>\<open>null\<close> for an entry whose book is not found,
  the \<^verbatim>\<open>null\<close>s filtered out, the rest made a \<^verbatim>\<open>Set\<close> (here the list of its distinct
  elements; a \<^verbatim>\<open>Set\<close> takes \<^verbatim>\<open>NaN\<close> as equal to itself).
\<close>

definition borrowedGenres :: "user \<Rightarrow> library \<Rightarrow> jsval list" where
  "borrowedGenres usr s =
     remdups (filter (\<lambda>g. g \<noteq> JNull)
       (map (\<lambda>entry. case findBookById (bookId entry) s of
                        Some bi \<Rightarrow> genre (libraryBooks s ! bi)
                      | None \<Rightarrow> JNull)
            (borrowedBooks usr)))"

text \<open>The filter both fallbacks use: available, and not in the user's borrowed list.\<close>

definition unborrowed :: "user \<Rightarrow> book \<Rightarrow> bool" where
  "unborrowed usr book =
     (isAvailable book
      \<and> \<not> list_ex (\<lambda>entry. strict_eq (bookId entry) (book_id book)) (borrowedBooks usr))"

definition recommendBooks :: "string \<Rightarrow> library \<Rightarrow> outcome \<times> book list" where
  "recommendBooks userName s =
     (case findUserByName userName s of
        None \<Rightarrow> (UserNotFound, [])
      | Some ui \<Rightarrow>
          (let usr = libraryUsers s ! ui;
               genres = borrowedGenres usr s
           in if length genres = 0
              then (let unborrowedBooks = js_sort by_rating (filter (unborrowed usr) (libraryBooks s))
                    in (Success, js_slice0 unborrowedBooks 5))
              else
                (let recommendations =
                       js_sort by_rating
                         (filter (\<lambda>book. unborrowed usr book \<and> genre book \<in> set genres)
                            (libraryBooks s))
                 in if length recommendations = 0
                    then (let unborrowedBooks =
                                js_sort by_rating (filter (unborrowed usr) (libraryBooks s))
                          in (Success, js_slice0 unborrowedBooks 5))
                    else (Success, recommendations))))"

subsection \<open>The queries over an explicit array store\<close>

text \<open>
  \<^verbatim>\<open>sort\<close> reorders the array it is called on and returns that same array; \<^verbatim>\<open>filter\<close>,
  \<^verbatim>\<open>slice\<close> and the spread \<^verbatim>\<open>[...xs]\<close> build a new one. Whether a query disturbs the catalog
  depends on which array each call works on, so the queries are written a second time with
  the arrays in a store: the global \<^verbatim>\<open>libraryBooks\<close> and the temporary arrays of books a
  call allocates, each under its own reference. The array of genres \<^verbatim>\<open>recommendBooks\<close>
  builds is never sorted or written after it is built and stays a value.
\<close>

datatype aref = LibraryBooks | Tmp nat

record store =
  lib :: library
  tmp :: "nat \<Rightarrow> book list"
  tmp_count :: nat

fun read_array :: "store \<Rightarrow> aref \<Rightarrow> book list" where
  "read_array st LibraryBooks = libraryBooks (lib st)"
| "read_array st (Tmp n) = tmp st n"

fun write_array :: "aref \<Rightarrow> book list \<Rightarrow> store \<Rightarrow> store" where
  "write_array LibraryBooks xs st = st\<lparr>lib := (lib st)\<lparr>libraryBooks := xs\<rparr>\<rparr>"
| "write_array (Tmp n) xs st = st\<lparr>tmp := (tmp st)(n := xs)\<rparr>"

definition new_array :: "book list \<Rightarrow> store \<Rightarrow> aref \<times> store" where
  "new_array xs st =
     (Tmp (tmp_count st), st\<lparr>tmp := (tmp st)(tmp_count st := xs), tmp_count := Suc (tmp_count st)\<rparr>)"

definition array_spread :: "aref \<Rightarrow> store \<Rightarrow> aref \<times> store" where
  "array_spread r st = new_array (read_array st r) st"

definition array_filter :: "(book \<Rightarrow> bool) \<Rightarrow> aref \<Rightarrow> store \<Rightarrow> aref \<times> store" where
  "array_filter P r st = new_array (filter P (read_array st r)) st"

definition array_slice0 :: "aref \<Rightarrow> int \<Rightarrow> store \<Rightarrow> aref \<times> store" where
  "array_slice0 r e st = new_array (js_slice0 (read_array st r) e) st"

definition array_sort :: "(book \<Rightarrow> book \<Rightarrow> jsnum) \<Rightarrow> aref \<Rightarrow> store \<Rightarrow> aref \<times> store" where
  "array_sort cmp r st = (r, write_array r (js_sort cmp (read_array st r)) st)"

text \<open>
  \<^verbatim>\<open>filter\<close> with a callback that may not return: the new array is built only when the
  callback has returned for every element.
\<close>

definition array_filter_throw ::
  "(book \<Rightarrow> outcome + bool) \<Rightarrow> aref \<Rightarrow> store \<Rightarrow> outcome + aref \<times> store" where
  "array_filter_throw f r st =
     (case filter_throw f (read_array st r) of
        Inl e \<Rightarrow> Inl e
      | Inr found \<Rightarrow> Inr (new_array found st))"

text \<open>
  \<^verbatim>\<open>searchBooksBy\<close> starts with \<^verbatim>\<open>let results = []\<close>, assigns the filtered array to it and
  returns it; the early returns give a new empty array. When the callback does not return,
  the filtered array is never built and nothing is returned: the model then gives the
  reference of the initial \<^verbatim>\<open>results\<close>.
\<close>

definition searchBooksBy_store ::
  "conversions \<Rightarrow> string \<Rightarrow> jsval \<Rightarrow> store \<Rightarrow> outcome \<times> aref \<times> store" where
  "searchBooksBy_store cv param val st =
     (let (results, st1) = new_array [] st;
          p = toLowerCase param in
      if p = ''author'' then
        (case array_filter_throw (author_matches cv val) LibraryBooks st1 of
           Inl e \<Rightarrow> (e, results, st1)
         | Inr (results, st2) \<Rightarrow> (Success, results, st2))
      else if p = ''genre'' then
        (case array_filter_throw (genre_matches cv val) LibraryBooks st1 of
           Inl e \<Rightarrow> (e, results, st1)
         | Inr (results, st2) \<Rightarrow> (Success, results, st2))
      else if p = ''rating'' then
        (case val of
           JNum v \<Rightarrow>
             (let (results, st2) = array_filter (\<lambda>book. num_ge (rating book) v) LibraryBooks st1
              in (Success, results, st2))
         | _ \<Rightarrow> (let (empty, st2) = new_array [] st1 in (InvalidQuery, empty, st2)))
      else if p = ''year'' then
        (case val of
           JNum v \<Rightarrow>
             (case array_filter_throw (year_matches cv v) LibraryBooks st1 of
                Inl e \<Rightarrow> (e, results, st1)
              | Inr (results, st2) \<Rightarrow> (Success, results, st2))
         | _ \<Rightarrow> (let (empty, st2) = new_array [] st1 in (InvalidQuery, empty, st2)))
      else (let (empty, st2) = new_array [] st1 in (InvalidQuery, empty, st2)))"

definition getTopRatedBooks_store :: "int \<Rightarrow> store \<Rightarrow> aref \<times> store" where
  "getTopRatedBooks_store limit st =
     (let (copy, st1) = array_spread LibraryBooks st;
          (sortedBooks, st2) = array_sort by_rating copy st1;
          (topBooks, st3) = array_slice0 sortedBooks limit st2
      in (topBooks, st3))"

definition getMostPopularBooks_store :: "int \<Rightarrow> store \<Rightarrow> aref \<times> store" where
  "getMostPopularBooks_store limit st =
     (let (copy, st1) = array_spread LibraryBooks st;
          (sortedBooks, st2) = array_sort by_borrowCount copy st1;
          (topBooks, st3) = array_slice0 sortedBooks limit st2
      in (topBooks, st3))"

text \<open>
  The fallback of \<^verbatim>\<open>recommendBooks\<close>, which the source writes out twice: filter, sort the
  filtered array, slice it once for printing and once more for the result.
\<close>

definition top_unborrowed_store :: "user \<Rightarrow> store \<Rightarrow> aref \<times> store" where
  "top_unborrowed_store usr st =
     (let (filtered, st1) = array_filter (unborrowed usr) LibraryBooks st;
          (unborrowedBooks, st2) = array_sort by_rating filtered st1;
          (printed, st3) = array_slice0 unborrowedBooks 5 st2
      in array_slice0 unborrowedBooks 5 st3)"

definition recommendBooks_store :: "string \<Rightarrow> store \<Rightarrow> outcome \<times> aref \<times> store" where
  "recommendBooks_store userName st =
     (case findUserByName userName (lib st) of
        None \<Rightarrow> (let (empty, st1) = new_array [] st in (UserNotFound, empty, st1))
      | Some ui \<Rightarrow>
          (let usr = libraryUsers (lib st) ! ui;
               genres = borrowedGenres usr (lib st)
           in if length genres = 0
              then (let (r, st1) = top_unborrowed_store usr st in (Success, r, st1))
              else
                (let (filtered, st1) =
                       array_filter (\<lambda>book. unborrowed usr book \<and> genre book \<in> set genres)
                         LibraryBooks st;
                     (recommendations, st2) = array_sort by_rating filtered st1
                 in if length (read_array st2 recommendations) = 0
                    then (let (r, st3) = top_unborrowed_store usr st2 in (Success, r, st3))
                    else (Success, recommendations, st2))))"

subsection \<open>Sequences of operations\<close>

text \<open>
  The four operations that change the catalog, with their arguments; \<open>BorrowBook\<close> and
  \<open>ReturnBook\<close> carry the time the clock shows during the call.
\<close>

datatype operation =
    AddBook candidate
  | BorrowBook int string jsval
  | ReturnBook int string jsval
  | RemoveBook jsval

fun apply_op :: "runtime \<Rightarrow> operation \<Rightarrow> library \<Rightarrow> library" where
  "apply_op env (AddBook c) s = snd (addBook c s)"
| "apply_op env (BorrowBook now userName bId) s = snd (borrowBook env now userName bId s)"
| "apply_op env (ReturnBook now userName bId) s = snd (returnBook env now userName bId s)"
| "apply_op env (RemoveBook bId) s = snd (removeBook bId s)"

fun run :: "runtime \<Rightarrow> operation list \<Rightarrow> library \<Rightarrow> library" where
  "run env [] s = s"
| "run env (x # xs) s = run env xs (apply_op env x s)"

text \<open>The users whose \<^verbatim>\<open>borrowedBooks\<close> has an entry for a book id.\<close>

definition holds :: "jsval \<Rightarrow> user \<Rightarrow> bool" where
  "holds bId u = list_ex (\<lambda>entry. strict_eq (bookId entry) bId) (borrowedBooks u)"

definition holders :: "library \<Rightarrow> jsval \<Rightarrow> user list" where
  "holders s bId = filter (holds bId) (libraryUsers s)"

text \<open>
  A catalog with no borrows: the ids of the books are distinct, as \<^verbatim>\<open>addBook\<close> keeps them,
  every book is available and no user has a borrow entry.
\<close>

definition no_borrows :: "library \<Rightarrow> bool" where
  "no_borrows s =
     (distinct (map book_id (libraryBooks s))
      \<and> list_all isAvailable (libraryBooks s)
      \<and> list_all (\<lambda>u. borrowedBooks u = []) (libraryUsers s))"

text \<open>
  What the operations maintain: distinct book ids, no user with two entries for one book,
  no entry for a book that is not in the catalog, and for every book no holder when it is
  available and one holder when it is not.
\<close>

definition catalog_inv :: "library \<Rightarrow> bool" where
  "catalog_inv s =
     (distinct (map book_id (libraryBooks s))
      \<and> (\<forall>u \<in> set (libraryUsers s). distinct (map bookId (borrowedBooks u)))
      \<and> (\<forall>u \<in> set (libraryUsers s). \<forall>e \<in> set (borrowedBooks u).
            bookId e \<in> book_id ` set (libraryBooks s))
      \<and> (\<forall>b \<in> set (libraryBooks s).
            length (holders s (book_id b)) = (if isAvailable b then 0 else 1)))"

text \<open>
  What \<^verbatim>\<open>addBook\<close> has checked of every book it stored: the five fields it tests with \<^verbatim>\<open>!\<close>
  are truthy. A catalog is well formed when that holds of its books and their ids are
  distinct.
\<close>

definition checked_book :: "book \<Rightarrow> bool" where
  "checked_book b =
     (truthy (book_id b) \<and> truthy (title b) \<and> truthy (author b) \<and> truthy (genre b)
      \<and> truthy (publicationYear b))"

definition wf_catalog :: "library \<Rightarrow> bool" where
  "wf_catalog s =
     (distinct (map book_id (libraryBooks s)) \<and> list_all checked_book (libraryBooks s))"

subsection \<open>The specification's wording, for comparison\<close>

text \<open>
  The data model of the specification: \<open>id\<close>, \<open>title\<close>, \<open>author\<close> and \<open>genre\<close> are
  non-empty strings, \<open>rating\<close> is numeric and \<open>publicationYear\<close> is an integer. A candidate
  with a field missing or of another type is not valid.
\<close>

fun nonempty_string :: "jsval \<Rightarrow> bool" where
  "nonempty_string (JStr s) = (s \<noteq> [])"
| "nonempty_string v = False"

fun integer_number :: "jsval \<Rightarrow> bool" where
  "integer_number (JNum (Fin r)) = (r = of_int \<lfloor>r\<rfloor>)"
| "integer_number v = False"

definition spec_valid :: "candidate \<Rightarrow> bool" where
  "spec_valid c =
     (nonempty_string (cand_id c) \<and> nonempty_string (cand_title c)
      \<and> nonempty_string (cand_author c) \<and> nonempty_string (cand_genre c)
      \<and> is_number (cand_rating c) \<and> integer_number (cand_publicationYear c))"

text \<open>
  The specification's \<open>InvalidQuery\<close>: the field is not one of the four, or it is
  \<open>rating\<close> or \<open>year\<close> and the value is not numeric.
\<close>

definition spec_invalid_query :: "string \<Rightarrow> jsval \<Rightarrow> bool" where
  "spec_invalid_query field val =
     (field \<notin> set [''author'', ''genre'', ''rating'', ''year'']
      \<or> (field = ''rating'' \<or> field = ''year'') \<and> \<not> is_number val)"

text \<open>
  "Sorted by rating descending": the library's stable sort, by a key that puts higher
  ratings first. \<^verbatim>\<open>NaN\<close>, which is neither above nor below any rating, is given the last
  place.
\<close>

fun desc_key :: "jsnum \<Rightarrow> int \<times> rat" where
  "desc_key PosInf = (0, 0)"
| "desc_key (Fin r) = (1, - r)"
| "desc_key NegInf = (2, 0)"
| "desc_key NaN = (3, 0)"

definition sort_desc :: "book list \<Rightarrow> book list" where
  "sort_desc bs = sort_key (\<lambda>b. desc_key (rating b)) bs"

text \<open>
  The specification's recommendation rule. The user's currently borrowed books are the
  books of the catalog whose id is the \<open>bookId\<close> of one of the user's entries; their
  genres are the borrowed genres. The candidates are the available books that are not
  among the borrowed ones. The fallback is the five best rated candidates.
\<close>

definition spec_borrowed :: "user \<Rightarrow> library \<Rightarrow> book list" where
  "spec_borrowed u s =
     filter (\<lambda>b. book_id b \<in> bookId ` set (borrowedBooks u)) (libraryBooks s)"

definition spec_genres :: "user \<Rightarrow> library \<Rightarrow> jsval set" where
  "spec_genres u s = genre ` set (spec_borrowed u s)"

definition spec_candidates :: "user \<Rightarrow> library \<Rightarrow> book list" where
  "spec_candidates u s =
     filter (\<lambda>b. isAvailable b \<and> book_id b \<notin> bookId ` set (borrowedBooks u)) (libraryBooks s)"

definition spec_top5 :: "user \<Rightarrow> library \<Rightarrow> book list" where
  "spec_top5 u s = take 5 (sort_desc (spec_candidates u s))"

definition spec_recommend :: "user \<Rightarrow> library \<Rightarrow> book list" where
  "spec_recommend u s =
     (if spec_genres u s = {} then spec_top5 u s
      else if filter (\<lambda>b. genre b \<in> spec_genres u s) (spec_candidates u s) = []
      then spec_top5 u s
      else sort_desc (filter (\<lambda>b. genre b \<in> spec_genres u s) (spec_candidates u s)))"

subsection \<open>Runtimes\<close>

text \<open>
  A runtime in UTC, and one whose zone is four hours behind UTC until 2025-11-02 06:00 UTC
  and five hours behind from then on: the clocks of New York between March 2025 and March
  2026 (local clocks went from 02:00 back to 01:00; a local time that occurs twice is read
  as the earlier instant).
\<close>

definition msPerHour :: int where
  "msPerHour = 1000 * 60 * 60"

definition utc_runtime :: runtime where
  "utc_runtime = \<lparr>tza = (\<lambda>t. 0), tzaLocal = (\<lambda>t. 0)\<rparr>"

definition new_york_runtime :: runtime where
  "new_york_runtime =
     \<lparr>tza = (\<lambda>t. if t < 1762063200000 then - 4 * msPerHour else - 5 * msPerHour),
      tzaLocal = (\<lambda>t. if t < 1762048800000 then - 4 * msPerHour else - 5 * msPerHour)\<rparr>"

text \<open>
  A time zone is sane when local time is never more than a day away from UTC (the zones in
  use lie between twelve hours behind and fourteen hours ahead).
\<close>

definition sane_zone :: "runtime \<Rightarrow> bool" where
  "sane_zone env = (\<forall>t. \<bar>tza env t\<bar> \<le> msPerDay \<and> \<bar>tzaLocal env t\<bar> \<le> msPerDay)"

subsection \<open>Example data\<close>

text \<open>Four of the books and the first user of \<^verbatim>\<open>initializeLibraryData\<close>.\<close>

definition B001 :: book where
  "B001 = \<lparr>book_id = JStr ''B001'', title = JStr ''The Great Adventure'',
           author = JStr ''Alice Wonderland'', genre = JStr ''Fantasy'', rating = Fin (45 / 10),
           publicationYear = JNum (Fin 2005), isAvailable = True, borrowCount = 0\<rparr>"

definition B002 :: book where
  "B002 = \<lparr>book_id = JStr ''B002'', title = JStr ''Code Master'',
           author = JStr ''Bob Builder'', genre = JStr ''Technology'', rating = Fin (48 / 10),
           publicationYear = JNum (Fin 2020), isAvailable = True, borrowCount = 0\<rparr>"

definition B003 :: book where
  "B003 = \<lparr>book_id = JStr ''B003'', title = JStr ''Mystery of the Old House'',
           author = JStr ''Charlie Chaplin'', genre = JStr ''Mystery'', rating = Fin (39 / 10),
           publicationYear = JNum (Fin 1998), isAvailable = True, borrowCount = 0\<rparr>"

definition B007 :: book where
  "B007 = \<lparr>book_id = JStr ''B007'', title = JStr ''Fantasy Realm'',
           author = JStr ''Alice Wonderland'', genre = JStr ''Fantasy'', rating = Fin (46 / 10),
           publicationYear = JNum (Fin 2008), isAvailable = True, borrowCount = 0\<rparr>"

definition U001 :: user where
  "U001 = \<lparr>user_id = ''U001'', name = ''John Doe'', borrowedBooks = [], penaltyPoints = 0\<rparr>"

definition demo_library :: library where
  "demo_library = \<lparr>libraryBooks = [B001, B002, B003], libraryUsers = [U001]\<rparr>"

text \<open>The same catalog after John Doe has borrowed B002.\<close>

definition lent_library :: library where
  "lent_library =
     \<lparr>libraryBooks = [B001, B002\<lparr>isAvailable := False, borrowCount := 1\<rparr>, B003],
      libraryUsers = [U001\<lparr>borrowedBooks :=
                        [\<lparr>bookId = JStr ''B002'', borrowDate = 0, dueDate = 14 * msPerDay\<rparr>]\<rparr>]\<rparr>"

text \<open>A catalog of four books in which John Doe holds the fantasy book B001.\<close>

definition fantasy_library :: library where
  "fantasy_library =
     \<lparr>libraryBooks = [B001\<lparr>isAvailable := False, borrowCount := 1\<rparr>, B002, B003, B007],
      libraryUsers = [U001\<lparr>borrowedBooks :=
                        [\<lparr>bookId = JStr ''B001'', borrowDate = 0, dueDate = 14 * msPerDay\<rparr>]\<rparr>]\<rparr>"

text \<open>
  Three instants in 2025, in milliseconds since the epoch: noon in New York on 18 October
  (16:00 UTC), on 1 November (16:00 UTC) and on 3 November (17:00 UTC, after the clocks
  went back).
\<close>

definition noon_october_18 :: int where
  "noon_october_18 = 1760803200000"

definition noon_november_1 :: int where
  "noon_november_1 = 1762012800000"

definition noon_november_3 :: int where
  "noon_november_3 = 1762189200000"

text \<open>The catalog after John Doe has borrowed B001 at noon on 18 October in New York.\<close>

definition october_library :: library where
  "october_library =
     \<lparr>libraryBooks = [B001\<lparr>isAvailable := False, borrowCount := 1\<rparr>, B002, B003],
      libraryUsers = [U001\<lparr>borrowedBooks :=
                        [\<lparr>bookId = JStr ''B001'', borrowDate = noon_october_18,
                          dueDate = noon_november_1\<rparr>]\<rparr>]\<rparr>"

text \<open>
  Candidates: one whose title is a number, one whose year is the number 0, one whose year
  is \<^verbatim>\<open>NaN\<close>, and one whose rating is \<^verbatim>\<open>NaN\<close>.
\<close>

definition novel_1984 :: candidate where
  "novel_1984 =
     \<lparr>cand_id = JStr ''B009'', cand_title = JNum (Fin 1984), cand_author = JStr ''George Orwell'',
      cand_genre = JStr ''Fiction'', cand_rating = JNum (Fin (47 / 10)),
      cand_publicationYear = JNum (Fin 1949)\<rparr>"

definition year_zero :: candidate where
  "year_zero =
     \<lparr>cand_id = JStr ''B010'', cand_title = JStr ''Annals'', cand_author = JStr ''Anonymous'',
      cand_genre = JStr ''History'', cand_rating = JNum (Fin 4),
      cand_publicationYear = JNum (Fin 0)\<rparr>"

definition year_nan :: candidate where
  "year_nan = year_zero\<lparr>cand_publicationYear := JNum NaN\<rparr>"

definition unrated :: candidate where
  "unrated =
     \<lparr>cand_id = JStr ''B011'', cand_title = JStr ''Essays'', cand_author = JStr ''Anonymous'',
      cand_genre = JStr ''Essay'', cand_rating = JNum NaN,
      cand_publicationYear = JNum (Fin 2001)\<rparr>"

text \<open>The candidate \<^verbatim>\<open>addBook\<close> was given for a book of the catalog.\<close>

definition candidate_of :: "book \<Rightarrow> candidate" where
  "candidate_of b =
     \<lparr>cand_id = book_id b, cand_title = title b, cand_author = author b, cand_genre = genre b,
      cand_rating = JNum (rating b), cand_publicationYear = publicationYear b\<rparr>"

text \<open>The book \<^verbatim>\<open>addBook\<close> stores for the candidate without a rating, and a catalog with it.\<close>

definition B011 :: book where
  "B011 = \<lparr>book_id = JStr ''B011'', title = JStr ''Essays'',
           author = JStr ''Anonymous'', genre = JStr ''Essay'', rating = NaN,
           publicationYear = JNum (Fin 2001), isAvailable = True, borrowCount = 0\<rparr>"

definition unrated_library :: library where
  "unrated_library = \<lparr>libraryBooks = [B003, B011, B002], libraryUsers = [U001]\<rparr>"

text \<open>Conversions that cover one number: \<^verbatim>\<open>String(1984)\<close> is \<^verbatim>\<open>"1984"\<close>.\<close>

definition decimal_1984 :: conversions where
  "decimal_1984 =
     \<lparr>numberToString = (\<lambda>n. if n = Fin 1984 then Some ''1984'' else None),
      stringToNumber = (\<lambda>s. None)\<rparr>"

text \<open>A store holding the lent catalog and no temporary array.\<close>

definition demo_store :: store where
  "demo_store = \<lparr>lib = lent_library, tmp = (\<lambda>n. []), tmp_count = 0\<rparr>"

section \<open>Properties\<close>

subsection \<open>Finding an element\<close>

lemma find_index_Some:
  "find_index P xs = Some i \<Longrightarrow> i < length xs \<and> P (xs ! i) \<and> (\<forall>j < i. \<not> P (xs ! j))"
proof (induction xs arbitrary: i)
  case Nil
  then show ?case by simp
next
  case (Cons x xs)
  show ?case
  proof (cases "P x")
    case True
    with Cons.prems show ?thesis by simp
  next
    case False
    with Cons.prems obtain k where k: "find_index P xs = Some k" "i = Suc k"
      by auto
    from Cons.IH [OF k(1)] False k(2) show ?thesis
      by (auto simp: less_Suc_eq_0_disj)
  qed
qed

lemma find_index_None: "find_index P xs = None \<longleftrightarrow> (\<forall>x \<in> set xs. \<not> P x)"
  by (induction xs) auto

lemma find_index_cong_map:
  "map P xs = map P ys \<Longrightarrow> find_index P xs = find_index P ys"
proof (induction xs arbitrary: ys)
  case Nil
  then show ?case by simp
next
  case (Cons x xs)
  from Cons.prems obtain y ys' where ys: "ys = y # ys'" by (cases ys) simp_all
  with Cons.prems have "P x = P y" "map P xs = map P ys'" by simp_all
  with Cons.IH [of ys'] ys show ?case by simp
qed

text \<open>Replacing an element by one the predicate judges alike does not move what is found.\<close>

lemma find_index_update:
  "P y = P (xs ! i) \<Longrightarrow> find_index P (xs[i := y]) = find_index P xs"
proof (rule find_index_cong_map)
  assume "P y = P (xs ! i)"
  then have "map P (xs[i := y]) = (map P xs)[i := P (xs ! i)]" by (simp add: map_update)
  also have "\<dots> = map P (xs[i := xs ! i])" by (simp only: map_update)
  finally show "map P (xs[i := y]) = map P xs" by simp
qed

lemma find_index_append_last:
  "\<forall>x \<in> set xs. \<not> P x \<Longrightarrow> P y \<Longrightarrow> find_index P (xs @ [y]) = Some (length xs)"
  by (induction xs) simp_all

subsection \<open>Splicing one element out\<close>

lemma set_splice1:
  assumes "k < length es"
  shows "set es = insert (es ! k) (set (splice1 k es))"
proof -
  have "es = take k es @ es ! k # drop (Suc k) es"
    using assms by (simp add: id_take_nth_drop)
  then have "set es = set (take k es @ es ! k # drop (Suc k) es)" by simp
  then show ?thesis by (auto simp: splice1_def)
qed

lemma distinct_map_splice1:
  assumes d: "distinct (map f es)"
  shows "distinct (map f (splice1 k es))"
proof -
  have "map f es = map f (take k es) @ map f (drop k es)"
    by (metis append_take_drop_id map_append)
  with d have "distinct (map f (take k es) @ map f (drop k es))" by simp
  moreover have "set (drop (Suc k) es) \<subseteq> set (drop k es)"
    by (metis drop_Suc set_drop_subset tl_drop drop_drop plus_1_eq_Suc)
  moreover have "distinct (map f (drop (Suc k) es))"
    using d by (metis distinct_drop drop_map)
  ultimately show ?thesis
    by (auto simp: splice1_def)
qed

text \<open>With distinct keys, splicing out the element found for a key removes the key.\<close>

lemma find_index_splice1_distinct:
  assumes "find_index (\<lambda>e. f e = x) es = Some k" and "distinct (map f es)"
  shows "x \<notin> f ` set (splice1 k es)"
proof -
  from find_index_Some [OF assms(1)] have k: "k < length es" "f (es ! k) = x" by auto
  have es: "es = take k es @ es ! k # drop (Suc k) es"
    using k(1) by (simp add: id_take_nth_drop)
  have "distinct (map f (take k es) @ x # map f (drop (Suc k) es))"
    using assms(2) k(2) by (subst (asm) es) simp
  then show ?thesis by (auto simp: splice1_def)
qed

subsection \<open>Strict equality\<close>

lemma strict_eqD: "strict_eq a b \<Longrightarrow> a = b \<and> b \<noteq> JNum NaN"
  by (auto simp: strict_eq_def)

lemma strict_eq_iff: "b \<noteq> JNum NaN \<Longrightarrow> strict_eq a b = (a = b)"
  by (auto simp: strict_eq_def)

lemma truthy_not_NaN: "truthy v \<Longrightarrow> v \<noteq> JNum NaN"
  by auto

text \<open>For an id that is not \<^verbatim>\<open>NaN\<close> the search by \<^verbatim>\<open>===\<close> is the search by equality.\<close>

lemma find_index_strict_eq:
  "x \<noteq> JNum NaN \<Longrightarrow> find_index (\<lambda>e. strict_eq (f e) x) es = find_index (\<lambda>e. f e = x) es"
  by (simp add: strict_eq_iff)

lemma findBookById_Some:
  assumes "findBookById bId s = Some i"
  shows "i < length (libraryBooks s)" and "book_id (libraryBooks s ! i) = bId"
    and "bId \<noteq> JNum NaN"
  using find_index_Some [OF assms [unfolded findBookById_def]] by (auto dest: strict_eqD)

lemma findBookById_None:
  "bId \<noteq> JNum NaN \<Longrightarrow> findBookById bId s = None \<longleftrightarrow> bId \<notin> book_id ` set (libraryBooks s)"
  unfolding findBookById_def find_index_None image_iff by (simp add: strict_eq_iff) metis

subsection \<open>removeBook\<close>

text \<open>
  C5. For a book that exists (the search for its id finds position \<open>i\<close>), \<open>removeBook\<close>
  reports \<open>BookCurrentlyBorrowed\<close> exactly when the book's \<open>isAvailable\<close> flag is false;
  when it reports that, the catalog is returned as it was; otherwise it succeeds, and the
  books are the old ones without the one at position \<open>i\<close>, the users untouched.
\<close>

theorem removeBook_borrowed_iff:
  assumes "find_index (\<lambda>b. strict_eq (book_id b) bId) (libraryBooks s) = Some i"
  shows "(fst (removeBook bId s) = BookCurrentlyBorrowed \<longleftrightarrow> \<not> isAvailable (libraryBooks s ! i))
       \<and> (fst (removeBook bId s) = BookCurrentlyBorrowed \<longrightarrow> snd (removeBook bId s) = s)
       \<and> (fst (removeBook bId s) \<noteq> BookCurrentlyBorrowed \<longrightarrow>
            fst (removeBook bId s) = Success
          \<and> libraryBooks (snd (removeBook bId s)) = take i (libraryBooks s) @ drop (Suc i) (libraryBooks s)
          \<and> libraryUsers (snd (removeBook bId s)) = libraryUsers s)"
  using assms by (simp add: removeBook_def splice1_def Let_def)

theorem removeBook_borrowed_iff_witness:
  "find_index (\<lambda>b. strict_eq (book_id b) (JStr ''B002'')) (libraryBooks lent_library) = Some 1
   \<and> removeBook (JStr ''B002'') lent_library = (BookCurrentlyBorrowed, lent_library)
   \<and> fst (removeBook (JStr ''B001'') lent_library) = Success
   \<and> map book_id (libraryBooks (snd (removeBook (JStr ''B001'') lent_library)))
       = [JStr ''B002'', JStr ''B003'']"
proof -
  have f2: "find_index (\<lambda>b. strict_eq (book_id b) (JStr ''B002'')) (libraryBooks lent_library) = Some 1"
    by (simp add: lent_library_def B001_def B002_def B003_def strict_eq_def)
  have f1: "find_index (\<lambda>b. strict_eq (book_id b) (JStr ''B001'')) (libraryBooks lent_library) = Some 0"
    by (simp add: lent_library_def B001_def B002_def B003_def strict_eq_def)
  from removeBook_borrowed_iff [OF f2] removeBook_borrowed_iff [OF f1] f2
  show ?thesis
    by (simp add: lent_library_def B001_def B002_def B003_def prod_eq_iff)
qed

subsection \<open>addBook\<close>

text \<open>
  C6, as stated, fails. The claim has \<open>ValidationError\<close> exactly when a field is missing or
  of the wrong type. \<^verbatim>\<open>addBook\<close> tests the type of \<^verbatim>\<open>rating\<close> only; of the other fields it
  asks no more than that they are not falsy. A candidate whose title is the number 1984 is
  not valid by the specification's data model, and is added.
\<close>

theorem addBook_wrong_type_accepted:
  "\<not> (fst (addBook novel_1984 demo_library) = ValidationError \<longleftrightarrow> \<not> spec_valid novel_1984)"
  by (simp add: addBook_def novel_1984_def spec_valid_def findBookById_def demo_library_def
      B001_def B002_def B003_def strict_eq_def)

text \<open>
  The other way round, a candidate with every field present and of the right type is
  turned away when its year is the number 0, which is falsy.
\<close>

lemma addBook_year_zero_rejected:
  "spec_valid year_zero \<and> fst (addBook year_zero demo_library) = ValidationError"
  by (simp add: addBook_def year_zero_def spec_valid_def)

text \<open>
  C6, amended. \<open>addBook\<close> reports \<open>ValidationError\<close> exactly when one of \<open>id\<close>, \<open>title\<close>,
  \<open>author\<close>, \<open>genre\<close>, \<open>publicationYear\<close> is falsy (absent, \<^verbatim>\<open>null\<close>, \<^verbatim>\<open>false\<close>, \<open>0\<close>,
  \<^verbatim>\<open>NaN\<close> or the empty string) or \<open>rating\<close> is not of type number (\<^verbatim>\<open>NaN\<close> and the
  infinities are of that type). Past that test it reports \<open>DuplicateIdError\<close> exactly when
  a book of the catalog has the candidate's id. In both cases the catalog is returned as
  it was. In every other case, that is exactly when the candidate passes the test and its
  id is new, the call succeeds: one book is appended, with the candidate's six fields,
  \<open>isAvailable\<close> true and \<open>borrowCount\<close> zero, and the users are untouched.
\<close>

theorem addBook_outcomes:
  "(fst (addBook c s) = ValidationError \<longleftrightarrow>
      \<not> (truthy (cand_id c) \<and> truthy (cand_title c) \<and> truthy (cand_author c)
         \<and> truthy (cand_genre c) \<and> is_number (cand_rating c) \<and> truthy (cand_publicationYear c)))
   \<and> (fst (addBook c s) = DuplicateIdError \<longleftrightarrow>
        fst (addBook c s) \<noteq> ValidationError \<and> cand_id c \<in> book_id ` set (libraryBooks s))
   \<and> (fst (addBook c s) = Success \<longleftrightarrow>
        fst (addBook c s) \<noteq> ValidationError \<and> cand_id c \<notin> book_id ` set (libraryBooks s))
   \<and> (fst (addBook c s) \<noteq> Success \<longrightarrow> snd (addBook c s) = s)
   \<and> (fst (addBook c s) = Success \<longrightarrow>
        (\<exists>b. libraryBooks (snd (addBook c s)) = libraryBooks s @ [b]
           \<and> book_id b = cand_id c \<and> title b = cand_title c \<and> author b = cand_author c
           \<and> genre b = cand_genre c \<and> JNum (rating b) = cand_rating c
           \<and> publicationYear b = cand_publicationYear c
           \<and> isAvailable b \<and> borrowCount b = 0)
        \<and> libraryUsers (snd (addBook c s)) = libraryUsers s)"
proof -
  have dup: "findBookById (cand_id c) s \<noteq> None \<longleftrightarrow> cand_id c \<in> book_id ` set (libraryBooks s)"
    if "truthy (cand_id c)"
    using findBookById_None [OF truthy_not_NaN [OF that], of s] by simp
  have num: "is_number v \<Longrightarrow> JNum (case v of JNum n \<Rightarrow> n | _ \<Rightarrow> NaN) = v" for v
    by (cases v) simp_all
  show ?thesis
  proof (cases "truthy (cand_id c)")
    case True
    from dup [OF True] num [of "cand_rating c"] show ?thesis
      unfolding addBook_def by (simp split: if_splits)
  next
    case False
    then show ?thesis
      unfolding addBook_def by simp
  qed
qed

theorem addBook_outcomes_witness:
  "fst (addBook year_zero demo_library) = ValidationError
   \<and> snd (addBook year_zero demo_library) = demo_library
   \<and> fst (addBook year_nan demo_library) = ValidationError
   \<and> fst (addBook novel_1984 demo_library) = Success
   \<and> map book_id (libraryBooks (snd (addBook novel_1984 demo_library)))
       = [JStr ''B001'', JStr ''B002'', JStr ''B003'', JStr ''B009'']
   \<and> snd (addBook unrated demo_library) = demo_library\<lparr>libraryBooks := [B001, B002, B003, B011]\<rparr>
   \<and> fst (addBook (novel_1984\<lparr>cand_id := JStr ''B002''\<rparr>) demo_library) = DuplicateIdError
   \<and> snd (addBook (novel_1984\<lparr>cand_id := JStr ''B002''\<rparr>) demo_library) = demo_library"
  using addBook_outcomes [of year_zero demo_library]
    addBook_outcomes [of novel_1984 demo_library]
    addBook_outcomes [of "novel_1984\<lparr>cand_id := JStr ''B002''\<rparr>" demo_library]
  by (simp add: addBook_def novel_1984_def year_zero_def year_nan_def unrated_def findBookById_def
      demo_library_def B001_def B002_def B003_def B011_def strict_eq_def)

subsection \<open>The catalog invariant\<close>

text \<open>Replacing one element changes the number of elements a predicate selects by that element's share.\<close>

lemma length_filter_list_update:
  "i < length xs \<Longrightarrow>
     length (filter P (xs[i := y])) + (if P (xs ! i) then 1 else 0)
       = length (filter P xs) + (if P y then 1 else 0)"
proof (induction xs arbitrary: i)
  case Nil
  then show ?case by simp
next
  case (Cons x xs)
  show ?case
  proof (cases i)
    case 0
    then show ?thesis by simp
  next
    case (Suc k)
    with Cons.prems have "k < length xs" by simp
    from Cons.IH [OF this] Suc show ?thesis by simp
  qed
qed

lemma holds_iff:
  "holds bId u \<longleftrightarrow> bId \<noteq> JNum NaN \<and> bId \<in> bookId ` set (borrowedBooks u)"
  unfolding holds_def list_ex_iff strict_eq_def image_iff by metis

lemma holders_none: "holders s bId = [] \<longleftrightarrow> (\<forall>u \<in> set (libraryUsers s). \<not> holds bId u)"
  by (auto simp: holders_def filter_empty_conv)

lemma map_book_id_update:
  "book_id b' = book_id (bs ! i) \<Longrightarrow> map book_id (bs[i := b']) = map book_id bs"
  by (metis list_update_id map_update)

lemma catalog_invI:
  assumes "distinct (map book_id (libraryBooks s))"
    and "\<And>u. u \<in> set (libraryUsers s) \<Longrightarrow> distinct (map bookId (borrowedBooks u))"
    and "\<And>u e. u \<in> set (libraryUsers s) \<Longrightarrow> e \<in> set (borrowedBooks u) \<Longrightarrow>
           bookId e \<in> book_id ` set (libraryBooks s)"
    and "\<And>b. b \<in> set (libraryBooks s) \<Longrightarrow>
           length (holders s (book_id b)) = (if isAvailable b then 0 else 1)"
  shows "catalog_inv s"
  using assms unfolding catalog_inv_def by blast

lemma inv_distinct_ids: "catalog_inv s \<Longrightarrow> distinct (map book_id (libraryBooks s))"
  by (simp add: catalog_inv_def)

lemma inv_distinct_entries:
  "catalog_inv s \<Longrightarrow> u \<in> set (libraryUsers s) \<Longrightarrow> distinct (map bookId (borrowedBooks u))"
  by (simp add: catalog_inv_def)

lemma inv_entry_book:
  "catalog_inv s \<Longrightarrow> u \<in> set (libraryUsers s) \<Longrightarrow> e \<in> set (borrowedBooks u) \<Longrightarrow>
     bookId e \<in> book_id ` set (libraryBooks s)"
  by (simp add: catalog_inv_def)

lemma inv_holders:
  "catalog_inv s \<Longrightarrow> b \<in> set (libraryBooks s) \<Longrightarrow>
     length (holders s (book_id b)) = (if isAvailable b then 0 else 1)"
  by (simp add: catalog_inv_def)

lemma no_borrows_inv: "no_borrows s \<Longrightarrow> catalog_inv s"
  by (auto simp: no_borrows_def catalog_inv_def list_all_iff holders_def holds_def filter_empty_conv)

lemma addBook_inv:
  assumes "catalog_inv s"
  shows "catalog_inv (snd (addBook c s))"
proof (cases "fst (addBook c s) = Success")
  case False
  then have "snd (addBook c s) = s" by (auto simp: addBook_def split: if_splits)
  with assms show ?thesis by simp
next
  case True
  then obtain nb where nb: "snd (addBook c s) = s\<lparr>libraryBooks := libraryBooks s @ [nb]\<rparr>"
    "book_id nb = cand_id c" "isAvailable nb" "findBookById (cand_id c) s = None"
    "truthy (cand_id c)"
    by (auto simp: addBook_def split: if_splits)
  from nb(4) have fresh: "cand_id c \<notin> book_id ` set (libraryBooks s)"
    by (simp add: findBookById_None [OF truthy_not_NaN [OF nb(5)]])
  have h: "holders (s\<lparr>libraryBooks := libraryBooks s @ [nb]\<rparr>) x = holders s x" for x
    by (simp add: holders_def)
  have "\<not> holds (cand_id c) u" if "u \<in> set (libraryUsers s)" for u
    using inv_entry_book [OF assms that] fresh unfolding holds_iff image_iff by metis
  then have none: "holders s (cand_id c) = []" by (simp add: holders_none)
  show ?thesis
    unfolding nb(1)
  proof (rule catalog_invI)
    show "distinct (map book_id (libraryBooks (s\<lparr>libraryBooks := libraryBooks s @ [nb]\<rparr>)))"
      using inv_distinct_ids [OF assms] fresh nb(2) by simp
  next
    fix u assume "u \<in> set (libraryUsers (s\<lparr>libraryBooks := libraryBooks s @ [nb]\<rparr>))"
    then show "distinct (map bookId (borrowedBooks u))"
      using inv_distinct_entries [OF assms] by simp
  next
    fix u e assume "u \<in> set (libraryUsers (s\<lparr>libraryBooks := libraryBooks s @ [nb]\<rparr>))"
      "e \<in> set (borrowedBooks u)"
    then show "bookId e \<in> book_id ` set (libraryBooks (s\<lparr>libraryBooks := libraryBooks s @ [nb]\<rparr>))"
      using inv_entry_book [OF assms, of u e] by simp
  next
    fix b assume "b \<in> set (libraryBooks (s\<lparr>libraryBooks := libraryBooks s @ [nb]\<rparr>))"
    then consider "b \<in> set (libraryBooks s)" | "b = nb" by auto
    then show "length (holders (s\<lparr>libraryBooks := libraryBooks s @ [nb]\<rparr>) (book_id b))
        = (if isAvailable b then 0 else 1)"
    proof cases
      case 1
      then show ?thesis using inv_holders [OF assms] by (simp add: h)
    next
      case 2
      then show ?thesis using none nb(2,3) by (simp add: h)
    qed
  qed
qed

lemma removeBook_inv:
  assumes "catalog_inv s"
  shows "catalog_inv (snd (removeBook bId s))"
proof (cases "fst (removeBook bId s) = Success")
  case False
  then have "snd (removeBook bId s) = s"
    by (auto simp: removeBook_def Let_def split: option.splits if_splits)
  with assms show ?thesis by simp
next
  case True
  then obtain i where i: "find_index (\<lambda>b. strict_eq (book_id b) bId) (libraryBooks s) = Some i"
    "isAvailable (libraryBooks s ! i)"
    "snd (removeBook bId s) = s\<lparr>libraryBooks := splice1 i (libraryBooks s)\<rparr>"
    by (auto simp: removeBook_def Let_def split: option.splits if_splits)
  let ?bs = "libraryBooks s"
  let ?s' = "s\<lparr>libraryBooks := splice1 i (libraryBooks s)\<rparr>"
  from find_index_Some [OF i(1)] have il: "i < length ?bs" and id: "book_id (?bs ! i) = bId"
    and nn: "bId \<noteq> JNum NaN"
    by (auto dest: strict_eqD)
  have bs: "?bs = take i ?bs @ ?bs ! i # drop (Suc i) ?bs"
    using il by (simp add: id_take_nth_drop)
  have d': "distinct (map book_id (take i ?bs) @ bId # map book_id (drop (Suc i) ?bs))"
    using inv_distinct_ids [OF assms] id by (subst (asm) bs) simp
  have sub: "set (splice1 i ?bs) \<subseteq> set ?bs"
    by (auto simp: splice1_def dest: in_set_takeD in_set_dropD)
  have ids: "book_id ` set ?bs = insert bId (book_id ` set (splice1 i ?bs))"
    by (subst bs) (auto simp: splice1_def id)
  have h: "holders ?s' x = holders s x" for x
    by (simp add: holders_def)
  from inv_holders [OF assms nth_mem [OF il]] i(2) id have "holders s bId = []"
    by simp
  then have nohold: "\<forall>u \<in> set (libraryUsers s). \<not> holds bId u" by (simp add: holders_none)
  show ?thesis
    unfolding i(3)
  proof (rule catalog_invI)
    show "distinct (map book_id (libraryBooks ?s'))"
      using d' by (simp add: splice1_def)
  next
    fix u assume "u \<in> set (libraryUsers ?s')"
    then show "distinct (map bookId (borrowedBooks u))"
      using inv_distinct_entries [OF assms] by simp
  next
    fix u e assume ue: "u \<in> set (libraryUsers ?s')" "e \<in> set (borrowedBooks u)"
    then have "bookId e \<in> book_id ` set ?bs"
      using inv_entry_book [OF assms, of u e] by simp
    moreover from nohold ue nn have "bookId e \<noteq> bId"
      unfolding holds_iff image_iff by auto
    ultimately show "bookId e \<in> book_id ` set (libraryBooks ?s')" by (simp add: ids)
  next
    fix b assume "b \<in> set (libraryBooks ?s')"
    with sub have "b \<in> set ?bs" by auto
    then show "length (holders ?s' (book_id b)) = (if isAvailable b then 0 else 1)"
      using inv_holders [OF assms] by (simp add: h)
  qed
qed


text \<open>
  \<open>borrowBook\<close> and \<open>returnBook\<close> both replace one book and one user. The invariant
  survives such a step when the book keeps its id, the user's entries for other books are
  as before, and the count of holders of the book moves with its availability.
\<close>

lemma update_inv:
  assumes inv: "catalog_inv s"
    and bi: "bi < length (libraryBooks s)" and ui: "ui < length (libraryUsers s)"
    and id: "book_id (libraryBooks s ! bi) = bId" and id': "book_id bk' = bId"
    and other: "\<And>x. x \<noteq> bId \<Longrightarrow> holds x usr' = holds x (libraryUsers s ! ui)"
    and dist: "distinct (map bookId (borrowedBooks usr'))"
    and sub: "bookId ` set (borrowedBooks usr')
                \<subseteq> insert bId (bookId ` set (borrowedBooks (libraryUsers s ! ui)))"
    and count: "length (holders s bId) + (if holds bId usr' then 1 else 0)
                 = (if isAvailable bk' then 0 else 1) + (if holds bId (libraryUsers s ! ui) then 1 else 0)"
  shows "catalog_inv (s\<lparr>libraryBooks := (libraryBooks s)[bi := bk'],
                        libraryUsers := (libraryUsers s)[ui := usr']\<rparr>)"
    (is "catalog_inv ?s'")
proof (rule catalog_invI)
  let ?bs = "libraryBooks s" and ?us = "libraryUsers s"
  have ids: "map book_id (?bs[bi := bk']) = map book_id ?bs"
    using id id' by (simp add: map_book_id_update)
  then have idset: "book_id ` set (?bs[bi := bk']) = book_id ` set ?bs"
    by (metis set_map)
  have len: "length (holders ?s' x) + (if holds x (?us ! ui) then 1 else 0)
      = length (holders s x) + (if holds x usr' then 1 else 0)" for x
    using length_filter_list_update [OF ui, of "holds x" usr'] by (simp add: holders_def)
  show "distinct (map book_id (libraryBooks ?s'))"
    using inv_distinct_ids [OF inv] ids by simp
  show "distinct (map bookId (borrowedBooks u))" if "u \<in> set (libraryUsers ?s')" for u
  proof -
    from that have "u = usr' \<or> u \<in> set ?us"
      using set_update_subset_insert [of ?us ui usr'] by auto
    then show ?thesis using dist inv_distinct_entries [OF inv] by auto
  qed
  show "bookId e \<in> book_id ` set (libraryBooks ?s')"
    if "u \<in> set (libraryUsers ?s')" "e \<in> set (borrowedBooks u)" for u e
  proof (cases "bookId e = bId")
    case True
    have "book_id (?bs ! bi) \<in> book_id ` set ?bs"
      using nth_mem [OF bi] by (rule imageI)
    with True id show ?thesis by (simp add: idset)
  next
    case False
    from that(1) have "u = usr' \<or> u \<in> set ?us"
      using set_update_subset_insert [of ?us ui usr'] by auto
    then show ?thesis
    proof
      assume "u = usr'"
      with that(2) sub False have "bookId e \<in> bookId ` set (borrowedBooks (?us ! ui))"
        by auto
      then obtain e' :: borrowEntry where "e' \<in> set (borrowedBooks (?us ! ui))"
        "bookId e' = bookId e"
        unfolding image_iff by metis
      with inv_entry_book [OF inv nth_mem [OF ui], of e'] show ?thesis
        by (simp add: idset)
    next
      assume "u \<in> set ?us"
      with inv_entry_book [OF inv this that(2)] show ?thesis by (simp add: idset)
    qed
  qed
  show "length (holders ?s' (book_id b)) = (if isAvailable b then 0 else 1)"
    if "b \<in> set (libraryBooks ?s')" for b
  proof -
    from that obtain j where j: "j < length ?bs" "b = (?bs[bi := bk']) ! j"
      by (auto simp: in_set_conv_nth)
    show ?thesis
    proof (cases "j = bi")
      case True
      with j bi have "b = bk'" by simp
      with len [of bId] count id' show ?thesis by (simp split: if_splits)
    next
      case False
      with j have b: "b = ?bs ! j" by simp
      have "book_id (?bs ! j) \<noteq> book_id (?bs ! bi)"
        using inv_distinct_ids [OF inv] j(1) bi False
        by (metis length_map nth_eq_iff_index_eq nth_map)
      with id b have "book_id b \<noteq> bId" by simp
      from other [OF this] len [of "book_id b"]
      have "length (holders ?s' (book_id b)) = length (holders s (book_id b))" by simp
      with inv_holders [OF inv nth_mem [OF j(1)]] b show ?thesis by simp
    qed
  qed
qed


lemma borrowBook_inv:
  assumes inv: "catalog_inv s"
  shows "catalog_inv (snd (borrowBook env now userName bId s))"
proof (cases "fst (borrowBook env now userName bId s) = Success")
  case False
  then have "snd (borrowBook env now userName bId s) = s"
    by (auto simp: borrowBook_def Let_def split: option.splits if_splits)
  with inv show ?thesis by simp
next
  case True
  let ?bs = "libraryBooks s" and ?us = "libraryUsers s"
  from True obtain ui bi where f: "findUserByName userName s = Some ui"
      "findBookById bId s = Some bi"
    and av: "isAvailable (?bs ! bi)" and nh: "\<not> holds bId (?us ! ui)"
    by (auto simp: borrowBook_def Let_def holds_def split: option.splits if_splits)
  define bk' where "bk' = (?bs ! bi)\<lparr>isAvailable := False, borrowCount := borrowCount (?bs ! bi) + 1\<rparr>"
  define usr' where "usr' = (?us ! ui)\<lparr>borrowedBooks := borrowedBooks (?us ! ui) @
      [\<lparr>bookId = book_id (?bs ! bi), borrowDate = now, dueDate = calculateDueDate env now\<rparr>]\<rparr>"
  from f av nh have res: "snd (borrowBook env now userName bId s)
      = s\<lparr>libraryBooks := ?bs[bi := bk'], libraryUsers := ?us[ui := usr']\<rparr>"
    by (simp add: borrowBook_def Let_def holds_def bk'_def usr'_def)
  from find_index_Some [OF f(1) [unfolded findUserByName_def]] have ui: "ui < length ?us"
    by simp
  from findBookById_Some [OF f(2)]
  have bi: "bi < length ?bs" and id: "book_id (?bs ! bi) = bId" and nn: "bId \<noteq> JNum NaN"
    by simp_all
  from inv_holders [OF inv nth_mem [OF bi]] av id have none: "length (holders s bId) = 0"
    by simp
  show ?thesis
    unfolding res
  proof (rule update_inv [OF inv bi ui id])
    show "book_id bk' = bId" using id by (simp add: bk'_def)
    show "holds x usr' = holds x (?us ! ui)" if "x \<noteq> bId" for x
      using that id by (auto simp: holds_iff usr'_def)
    show "distinct (map bookId (borrowedBooks usr'))"
      using inv_distinct_entries [OF inv nth_mem [OF ui]] nh id nn
      by (auto simp: usr'_def holds_iff)
    show "bookId ` set (borrowedBooks usr') \<subseteq> insert bId (bookId ` set (borrowedBooks (?us ! ui)))"
      using id by (auto simp: usr'_def)
    show "length (holders s bId) + (if holds bId usr' then 1 else 0)
        = (if isAvailable bk' then 0 else 1) + (if holds bId (?us ! ui) then 1 else 0)"
      using none nh id nn by (simp add: holds_iff usr'_def bk'_def)
  qed
qed

text \<open>What \<open>returnBook\<close> does once its three searches have succeeded.\<close>

lemma returnBook_Success:
  assumes "findUserByName userName s = Some ui" and "findBookById bId s = Some bi"
    and "find_index (\<lambda>entry. strict_eq (bookId entry) bId) (borrowedBooks (libraryUsers s ! ui))
           = Some k"
  shows "returnBook env now userName bId s =
    (Success,
     s\<lparr>libraryBooks := (libraryBooks s)[bi := (libraryBooks s ! bi)\<lparr>isAvailable := True\<rparr>],
       libraryUsers := (libraryUsers s)[ui := (libraryUsers s ! ui)
         \<lparr>borrowedBooks := splice1 k (borrowedBooks (libraryUsers s ! ui)),
          penaltyPoints := penaltyPoints (libraryUsers s ! ui)
            + (if fst (checkOverdueStatus env now (borrowedBooks (libraryUsers s ! ui) ! k))
               then snd (checkOverdueStatus env now (borrowedBooks (libraryUsers s ! ui) ! k)) * 5
               else 0)\<rparr>]\<rparr>)"
  using assms by (simp add: returnBook_def Let_def split: prod.splits)

lemma returnBook_inv:
  assumes inv: "catalog_inv s"
  shows "catalog_inv (snd (returnBook env now userName bId s))"
proof (cases "fst (returnBook env now userName bId s) = Success")
  case False
  then have "snd (returnBook env now userName bId s) = s"
    by (auto simp: returnBook_def Let_def split: option.splits if_splits prod.splits)
  with inv show ?thesis by simp
next
  case True
  let ?bs = "libraryBooks s" and ?us = "libraryUsers s"
  from True obtain ui bi k where f: "findUserByName userName s = Some ui"
      "findBookById bId s = Some bi"
      "find_index (\<lambda>entry. strict_eq (bookId entry) bId) (borrowedBooks (?us ! ui)) = Some k"
    by (auto simp: returnBook_def Let_def split: option.splits if_splits prod.splits)
  let ?es = "borrowedBooks (?us ! ui)"
  define usr' where "usr' = (?us ! ui)\<lparr>borrowedBooks := splice1 k ?es,
      penaltyPoints := penaltyPoints (?us ! ui)
        + (if fst (checkOverdueStatus env now (?es ! k))
           then snd (checkOverdueStatus env now (?es ! k)) * 5 else 0)\<rparr>"
  have res: "snd (returnBook env now userName bId s)
      = s\<lparr>libraryBooks := ?bs[bi := (?bs ! bi)\<lparr>isAvailable := True\<rparr>],
          libraryUsers := ?us[ui := usr']\<rparr>"
    using returnBook_Success [OF f] by (simp add: usr'_def)
  have es': "borrowedBooks usr' = splice1 k ?es"
    by (simp add: usr'_def)
  from find_index_Some [OF f(1) [unfolded findUserByName_def]] have ui: "ui < length ?us"
    by simp
  from findBookById_Some [OF f(2)]
  have bi: "bi < length ?bs" and id: "book_id (?bs ! bi) = bId" and nn: "bId \<noteq> JNum NaN"
    by simp_all
  from f(3) have fe: "find_index (\<lambda>entry. bookId entry = bId) ?es = Some k"
    by (simp add: find_index_strict_eq [OF nn])
  from find_index_Some [OF fe] have k: "k < length ?es" "bookId (?es ! k) = bId"
    by simp_all
  have d: "distinct (map bookId ?es)"
    using inv_distinct_entries [OF inv nth_mem [OF ui]] .
  have before: "holds bId (?us ! ui)"
    using k nth_mem [OF k(1)] nn unfolding holds_iff image_iff by metis
  have after: "\<not> holds bId usr'"
    using find_index_splice1_distinct [OF fe d] by (simp add: holds_iff es')
  have "holders s bId \<noteq> []"
    using before nth_mem [OF ui] by (auto simp: holders_none)
  with inv_holders [OF inv nth_mem [OF bi]] id have one: "length (holders s bId) = 1"
    by (auto split: if_splits)
  show ?thesis
    unfolding res
  proof (rule update_inv [OF inv bi ui id])
    show "book_id ((?bs ! bi)\<lparr>isAvailable := True\<rparr>) = bId" using id by simp
    show "holds x usr' = holds x (?us ! ui)" if "x \<noteq> bId" for x
      using that k(2) set_splice1 [OF k(1)] by (auto simp: holds_iff es')
    show "distinct (map bookId (borrowedBooks usr'))"
      using d by (simp add: es' distinct_map_splice1)
    show "bookId ` set (borrowedBooks usr') \<subseteq> insert bId (bookId ` set (borrowedBooks (?us ! ui)))"
      using set_splice1 [OF k(1)] by (auto simp: es')
    show "length (holders s bId) + (if holds bId usr' then 1 else 0)
        = (if isAvailable ((?bs ! bi)\<lparr>isAvailable := True\<rparr>) then 0 else 1)
          + (if holds bId (?us ! ui) then 1 else 0)"
      using one before after by simp
  qed
qed

lemma apply_op_inv: "catalog_inv s \<Longrightarrow> catalog_inv (apply_op env x s)"
  by (cases x) (simp_all add: addBook_inv borrowBook_inv returnBook_inv removeBook_inv)

lemma run_inv: "catalog_inv s \<Longrightarrow> catalog_inv (run env xs s)"
  by (induction xs arbitrary: s) (simp_all add: apply_op_inv)

text \<open>
  C1. Start from a catalog with no borrows and apply any sequence of \<open>addBook\<close>,
  \<open>borrowBook\<close>, \<open>returnBook\<close> and \<open>removeBook\<close> calls, whatever their arguments and
  whether they succeed or fail. In the catalog reached, a book's \<open>isAvailable\<close> flag is
  false if and only if exactly one user has an entry for the book's id in
  \<open>borrowedBooks\<close>. The sequence is arbitrary, so this holds after every single operation
  along the way.
\<close>

theorem borrowed_iff_one_holder:
  assumes "no_borrows s0"
  shows "\<forall>b \<in> set (libraryBooks (run env ops s0)).
           (\<not> isAvailable b) = (length (holders (run env ops s0) (book_id b)) = 1)"
proof
  fix b assume "b \<in> set (libraryBooks (run env ops s0))"
  from inv_holders [OF run_inv [OF no_borrows_inv [OF assms]] this]
  show "(\<not> isAvailable b) = (length (holders (run env ops s0) (book_id b)) = 1)"
    by (simp split: if_splits)
qed

lemma toLowerCase_john_doe:
  "toLowerCase ''john doe'' = ''john doe''" "toLowerCase ''John Doe'' = ''john doe''"
  by (simp_all add: toLowerCase_def lower_char_def)

theorem borrowed_iff_one_holder_witness:
  "no_borrows demo_library
   \<and> run utc_runtime [BorrowBook 0 ''john doe'' (JStr ''B002'')] demo_library = lent_library
   \<and> list_all (\<lambda>b. (\<not> isAvailable b) = (length (holders lent_library (book_id b)) = 1))
        (libraryBooks lent_library)
   \<and> map isAvailable (libraryBooks lent_library) = [True, False, True]
   \<and> map (\<lambda>b. length (holders lent_library (book_id b))) (libraryBooks lent_library) = [0, 1, 0]"
proof -
  have nb: "no_borrows demo_library"
    by (simp add: no_borrows_def demo_library_def B001_def B002_def B003_def U001_def)
  have r: "run utc_runtime [BorrowBook 0 ''john doe'' (JStr ''B002'')] demo_library = lent_library"
    by (simp add: borrowBook_def findUserByName_def findBookById_def toLowerCase_john_doe
        demo_library_def lent_library_def B001_def B002_def B003_def U001_def strict_eq_def
        calculateDueDate_def LocalTime_def UTC_def utc_runtime_def Let_def)
  from borrowed_iff_one_holder [OF nb, of utc_runtime "[BorrowBook 0 ''john doe'' (JStr ''B002'')]"]
  have "list_all (\<lambda>b. (\<not> isAvailable b) = (length (holders lent_library (book_id b)) = 1))
        (libraryBooks lent_library)"
    by (simp only: r list_all_iff)
  with nb r show ?thesis
    by (simp add: lent_library_def holders_def holds_def B001_def B002_def B003_def U001_def
        strict_eq_def)
qed

subsection \<open>Days overdue and penalty points\<close>

lemma msPerDay_pos: "0 < msPerDay" by (simp add: msPerDay_def)

lemma floor_day_bounds: "x div msPerDay * msPerDay \<le> x \<and> x < x div msPerDay * msPerDay + msPerDay"
proof -
  have "x = x div msPerDay * msPerDay + x mod msPerDay" by simp
  moreover have "0 \<le> x mod msPerDay" "x mod msPerDay < msPerDay"
    using msPerDay_pos by simp_all
  ultimately show ?thesis by linarith
qed

text \<open>
  In a sane zone the start of the local day of the due date lies more than nine days after
  the start of the local day of borrowing, so nothing returned on that day is overdue.
\<close>

lemma same_day_not_overdue:
  assumes sane: "sane_zone env" and same: "localDay env t2 = localDay env t1"
  shows "\<not> setHours0 env t2 > setHours0 env (calculateDueDate env t1)"
proof -
  define D where "D = msPerDay"
  define L1 where "L1 = t1 + tza env t1"
  define M where "M = L1 div D * D"
  define dueLocal where "dueLocal = L1 + 14 * D"
  define due where "due = dueLocal - tzaLocal env dueLocal"
  define due2 where "due2 = due + tza env due"
  define dm where "dm = due2 div D * D"
  have today: "setHours0 env t2 = M - tzaLocal env M"
    using same by (simp add: setHours0_def UTC_def LocalTime_def localDay_def M_def L1_def D_def)
  have duemid: "setHours0 env (calculateDueDate env t1) = dm - tzaLocal env dm"
    by (simp add: setHours0_def calculateDueDate_def UTC_def LocalTime_def dm_def due2_def
        due_def dueLocal_def L1_def D_def)
  have b: "\<bar>tzaLocal env M\<bar> \<le> D" "\<bar>tzaLocal env dm\<bar> \<le> D" "\<bar>tzaLocal env dueLocal\<bar> \<le> D"
    "\<bar>tza env due\<bar> \<le> D"
    using sane by (simp_all add: sane_zone_def D_def)
  have "M \<le> L1" using floor_day_bounds [of L1] by (simp add: M_def D_def)
  moreover have "due2 < dm + D" using floor_day_bounds [of due2] by (simp add: dm_def D_def)
  moreover have "0 < D" by (simp add: D_def msPerDay_pos)
  ultimately have "M - tzaLocal env M \<le> dm - tzaLocal env dm"
    using b unfolding due2_def due_def dueLocal_def by linarith
  then show ?thesis by (simp add: today duemid)
qed

lemma ceil_div_mult: "0 < b \<Longrightarrow> ceil_div (k * b) b = k"
proof -
  assume "0 < b"
  then have "b \<noteq> 0" by simp
  then have "(- k) * b div b = - k" by (rule nonzero_mult_div_cancel_right)
  then show ?thesis by (simp add: ceil_div_def)
qed


lemma fixed_zone_overdue:
  assumes "tza env = (\<lambda>t. c)" and "tzaLocal env = (\<lambda>t. c)"
    and "localDay env now - localDay env (dueDate entry) = k" and "0 < k"
  shows "checkOverdueStatus env now entry = (True, k)"
proof -
  define a where "a = (now + c) div msPerDay"
  define b where "b = (dueDate entry + c) div msPerDay"
  have ab: "a - b = k"
    using assms(3) by (simp add: localDay_def LocalTime_def assms(1) a_def b_def)
  have t: "setHours0 env now = a * msPerDay - c"
    by (simp add: setHours0_def UTC_def LocalTime_def assms(1,2) a_def)
  have u: "setHours0 env (dueDate entry) = b * msPerDay - c"
    by (simp add: setHours0_def UTC_def LocalTime_def assms(1,2) b_def)
  have "a * msPerDay - c - (b * msPerDay - c) = (a - b) * msPerDay"
    by (simp add: algebra_simps)
  with ab have d: "setHours0 env now - setHours0 env (dueDate entry) = k * msPerDay"
    by (simp only: t u)
  have pos: "0 < k * msPerDay"
    using assms(4) msPerDay_pos by (rule mult_pos_pos)
  with d have gt: "setHours0 env now > setHours0 env (dueDate entry)"
    by linarith
  from pos have "\<bar>k * msPerDay\<bar> = k * msPerDay" by simp
  then have "ceil_div \<bar>setHours0 env now - setHours0 env (dueDate entry)\<bar> msPerDay = k"
    using msPerDay_pos by (simp only: d ceil_div_mult)
  with gt show ?thesis by (simp add: checkOverdueStatus_def Let_def)
qed

text \<open>What a successful \<open>borrowBook\<close> has found and done.\<close>

lemma borrowBook_SuccessE:
  assumes "borrowBook env now userName bId s = (Success, s1)"
  obtains ui bi where "findUserByName userName s = Some ui" "findBookById bId s = Some bi"
    "isAvailable (libraryBooks s ! bi)" "\<not> holds bId (libraryUsers s ! ui)"
    "s1 = s\<lparr>libraryBooks := (libraryBooks s)
               [bi := (libraryBooks s ! bi)\<lparr>isAvailable := False,
                        borrowCount := borrowCount (libraryBooks s ! bi) + 1\<rparr>],
             libraryUsers := (libraryUsers s)
               [ui := (libraryUsers s ! ui)\<lparr>borrowedBooks := borrowedBooks (libraryUsers s ! ui) @
                  [\<lparr>bookId = book_id (libraryBooks s ! bi), borrowDate = now,
                    dueDate = calculateDueDate env now\<rparr>]\<rparr>]\<rparr>"
  using assms
  by (auto simp: borrowBook_def Let_def holds_def split: option.splits if_splits)

text \<open>
  C3. In a sane time zone, when \<open>borrowBook\<close> succeeds for a user and a book and
  \<open>returnBook\<close> is called for the same pair at any instant of the same local calendar
  day, the return succeeds and no user's \<open>penaltyPoints\<close> differ from what they were before
  the borrow.
\<close>

theorem borrow_return_same_day:
  assumes sane: "sane_zone env"
    and borrow: "borrowBook env t1 userName bId s = (Success, s1)"
    and same: "localDay env t2 = localDay env t1"
  shows "fst (returnBook env t2 userName bId s1) = Success
       \<and> map penaltyPoints (libraryUsers (snd (returnBook env t2 userName bId s1)))
           = map penaltyPoints (libraryUsers s)"
proof -
  let ?bs = "libraryBooks s" and ?us = "libraryUsers s"
  from borrow obtain ui bi where f: "findUserByName userName s = Some ui"
      "findBookById bId s = Some bi"
    and nh: "\<not> holds bId (?us ! ui)"
    and s1: "s1 = s\<lparr>libraryBooks := ?bs[bi := (?bs ! bi)\<lparr>isAvailable := False,
                        borrowCount := borrowCount (?bs ! bi) + 1\<rparr>],
             libraryUsers := ?us[ui := (?us ! ui)\<lparr>borrowedBooks := borrowedBooks (?us ! ui) @
                  [\<lparr>bookId = book_id (?bs ! bi), borrowDate = t1,
                    dueDate = calculateDueDate env t1\<rparr>]\<rparr>]\<rparr>"
    by (rule borrowBook_SuccessE)
  define e where "e = \<lparr>bookId = book_id (?bs ! bi), borrowDate = t1,
                    dueDate = calculateDueDate env t1\<rparr>"
  let ?es = "borrowedBooks (?us ! ui)"
  from find_index_Some [OF f(1) [unfolded findUserByName_def]] have ui: "ui < length ?us"
    by simp
  from findBookById_Some [OF f(2)]
  have bi: "bi < length ?bs" and id: "book_id (?bs ! bi) = bId" and nn: "bId \<noteq> JNum NaN"
    by simp_all
  have fu: "findUserByName userName s1 = Some ui"
    using f(1) by (simp add: s1 findUserByName_def find_index_update)
  have fb: "findBookById bId s1 = Some bi"
    using f(2) by (simp add: s1 findBookById_def find_index_update)
  have es1: "borrowedBooks (libraryUsers s1 ! ui) = ?es @ [e]"
    using ui by (simp add: s1 e_def)
  have "\<forall>x \<in> set ?es. \<not> strict_eq (bookId x) bId"
    using nh by (simp add: holds_def list_ex_iff)
  moreover have "strict_eq (bookId e) bId" using nn by (simp add: e_def id strict_eq_def)
  ultimately have fe: "find_index (\<lambda>entry. strict_eq (bookId entry) bId)
      (borrowedBooks (libraryUsers s1 ! ui)) = Some (length ?es)"
    unfolding es1 by (rule find_index_append_last)
  have entry: "borrowedBooks (libraryUsers s1 ! ui) ! length ?es = e"
    by (simp add: es1)
  have "\<not> setHours0 env t2 > setHours0 env (dueDate e)"
    using same_day_not_overdue [OF sane same] by (simp add: e_def)
  then have od: "checkOverdueStatus env t2 e = (False, 0)"
    by (simp add: checkOverdueStatus_def Let_def)
  have pen: "penaltyPoints (libraryUsers s1 ! ui) = penaltyPoints (?us ! ui)"
    using ui by (simp add: s1)
  have len: "length (libraryUsers s1) = length ?us" by (simp add: s1)
  have "map penaltyPoints (libraryUsers s1) = map penaltyPoints ?us"
    by (simp add: s1 map_update) (metis list_update_id map_update)
  moreover note returnBook_Success [OF fu fb fe, of env t2]
  ultimately show ?thesis
    by (simp add: entry od map_update pen) (metis list_update_id map_update)
qed

lemma sane_new_york: "sane_zone new_york_runtime"
  by (simp add: sane_zone_def new_york_runtime_def msPerDay_def msPerHour_def)

lemma borrow_october_18:
  "borrowBook new_york_runtime noon_october_18 ''john doe'' (JStr ''B001'') demo_library
     = (Success, october_library)"
  by (simp add: borrowBook_def findUserByName_def findBookById_def toLowerCase_john_doe
      demo_library_def october_library_def B001_def B002_def B003_def U001_def strict_eq_def
      calculateDueDate_def LocalTime_def UTC_def new_york_runtime_def msPerDay_def msPerHour_def
      noon_october_18_def noon_november_1_def Let_def)

theorem borrow_return_same_day_witness:
  "sane_zone new_york_runtime
   \<and> borrowBook new_york_runtime noon_october_18 ''john doe'' (JStr ''B001'') demo_library
       = (Success, october_library)
   \<and> localDay new_york_runtime (noon_october_18 + 11 * msPerHour)
       = localDay new_york_runtime noon_october_18
   \<and> fst (returnBook new_york_runtime (noon_october_18 + 11 * msPerHour) ''john doe''
            (JStr ''B001'') october_library) = Success
   \<and> map penaltyPoints (libraryUsers (snd (returnBook new_york_runtime
            (noon_october_18 + 11 * msPerHour) ''john doe'' (JStr ''B001'') october_library)))
       = [0]"
proof -
  have same: "localDay new_york_runtime (noon_october_18 + 11 * msPerHour)
      = localDay new_york_runtime noon_october_18"
    by (simp add: localDay_def LocalTime_def new_york_runtime_def msPerDay_def msPerHour_def
        noon_october_18_def)
  from borrow_return_same_day [OF sane_new_york borrow_october_18 same]
    sane_new_york borrow_october_18 same
  show ?thesis
    by (simp add: demo_library_def U001_def)
qed

text \<open>
  Where local time keeps one offset from UTC, a return \<open>k\<close> local calendar days after the
  due date, \<open>k\<close> positive, adds \<open>5 * k\<close> points and removes the entry.
\<close>

lemma returnBook_fixed_zone_penalty:
  assumes zone: "tza env = (\<lambda>t. c)" "tzaLocal env = (\<lambda>t. c)"
    and f: "findUserByName userName s = Some ui" "findBookById bId s = Some bi"
      "find_index (\<lambda>entry. strict_eq (bookId entry) bId) (borrowedBooks (libraryUsers s ! ui))
         = Some i"
    and late: "localDay env now - localDay env (dueDate (borrowedBooks (libraryUsers s ! ui) ! i)) = k"
      "0 < k"
  shows "fst (returnBook env now userName bId s) = Success
       \<and> penaltyPoints (libraryUsers (snd (returnBook env now userName bId s)) ! ui)
           = penaltyPoints (libraryUsers s ! ui) + 5 * k
       \<and> borrowedBooks (libraryUsers (snd (returnBook env now userName bId s)) ! ui)
           = splice1 i (borrowedBooks (libraryUsers s ! ui))"
proof -
  from find_index_Some [OF f(1) [unfolded findUserByName_def]]
  have ui: "ui < length (libraryUsers s)" by simp
  from fixed_zone_overdue [OF zone late]
  have "checkOverdueStatus env now (borrowedBooks (libraryUsers s ! ui) ! i) = (True, k)" .
  with returnBook_Success [OF f, of env now] ui show ?thesis by simp
qed

text \<open>
  C2 fails where the offset changes. \<open>checkOverdueStatus\<close> sets both dates to the start of
  their local day and rounds the difference, divided by 24 hours, up. When the clocks
  have gone back in between, the two local midnights are a whole number of days and one hour
  apart, and the quotient is rounded up to one day too many. John Doe borrows B001 at noon
  on 18 October 2025 in New York; the book is due on 1 November. He returns it at noon on
  3 November, two calendar days after the due date, and is charged for three: 15 points
  where the claim has 10.
\<close>

theorem return_across_clock_change:
  "localDay new_york_runtime noon_november_3 - localDay new_york_runtime noon_november_1 = 2
   \<and> map dueDate (borrowedBooks (libraryUsers october_library ! 0)) = [noon_november_1]
   \<and> fst (returnBook new_york_runtime noon_november_3 ''john doe'' (JStr ''B001'')
            october_library) = Success
   \<and> map penaltyPoints (libraryUsers (snd (returnBook new_york_runtime noon_november_3
            ''john doe'' (JStr ''B001'') october_library))) = [15]"
  by (simp add: october_library_def returnBook_def findUserByName_def findBookById_def
      toLowerCase_john_doe B001_def B002_def B003_def U001_def checkOverdueStatus_def
      strict_eq_def setHours0_def localDay_def LocalTime_def UTC_def ceil_div_def splice1_def
      new_york_runtime_def msPerDay_def msPerHour_def noon_november_3_def noon_november_1_def
      noon_october_18_def Let_def)

subsection \<open>Sorting\<close>

text \<open>
  On numbers other than \<^verbatim>\<open>NaN\<close> the sign test of the comparator \<^verbatim>\<open>(a, b) => b - a\<close> is the
  strict order of \<open>desc_key\<close>, and \<^verbatim>\<open>>=\<close> is its converse.
\<close>

lemma num_pos_sub_desc:
  "a \<noteq> NaN \<Longrightarrow> b \<noteq> NaN \<Longrightarrow> num_pos (num_sub b a) \<longleftrightarrow> desc_key b < desc_key a"
  by (cases a; cases b) (simp_all add: num_pos_def)

lemma num_ge_desc:
  "a \<noteq> NaN \<Longrightarrow> b \<noteq> NaN \<Longrightarrow> num_ge a b \<longleftrightarrow> desc_key a \<le> desc_key b"
  by (cases a; cases b) (auto simp: num_ge_def)

lemma desc_key_inj: "desc_key a = desc_key b \<longleftrightarrow> a = b"
  by (cases a; cases b) simp_all

text \<open>
  Where no rating is \<^verbatim>\<open>NaN\<close>, \<open>js_sort by_rating\<close> is the library's stable sort by
  descending rating.
\<close>

lemma js_insert_by_rating:
  assumes "rating x \<noteq> NaN" and "\<forall>y \<in> set ys. rating y \<noteq> NaN"
  shows "js_insert by_rating x ys = insort_key (\<lambda>b. desc_key (rating b)) x ys"
  using assms
  by (induction ys) (auto simp: by_rating_def num_pos_sub_desc not_le)

lemma js_sort_by_rating:
  assumes "\<forall>b \<in> set xs. rating b \<noteq> NaN"
  shows "js_sort by_rating xs = sort_desc xs"
  using assms
proof (induction xs)
  case Nil
  show ?case by (simp add: js_sort_def sort_desc_def)
next
  case (Cons x xs)
  then have ih: "js_sort by_rating xs = sort_key (\<lambda>b. desc_key (rating b)) xs"
    by (simp add: sort_desc_def)
  have "\<forall>y \<in> set (sort_key (\<lambda>b. desc_key (rating b)) xs). rating y \<noteq> NaN"
    using Cons.prems by simp
  with Cons.prems have "js_insert by_rating x (sort_key (\<lambda>b. desc_key (rating b)) xs)
      = insort_key (\<lambda>b. desc_key (rating b)) x (sort_key (\<lambda>b. desc_key (rating b)) xs)"
    by (intro js_insert_by_rating) simp_all
  with ih show ?case
    by (simp add: js_sort_def sort_desc_def)
qed

lemma js_insert_by_borrowCount:
  "js_insert by_borrowCount x ys = insort_key (\<lambda>b. - borrowCount b) x ys"
  by (induction ys) (auto simp: by_borrowCount_def num_pos_def)

lemma js_sort_by_borrowCount: "js_sort by_borrowCount xs = sort_key (\<lambda>b. - borrowCount b) xs"
  by (induction xs) (simp_all add: js_sort_def js_insert_by_borrowCount)

lemma js_slice0_nonneg: "0 \<le> e \<Longrightarrow> js_slice0 xs e = take (nat e) xs"
  by (auto simp: js_slice0_def Let_def min_def)

lemma getTopRatedBooks_nonneg:
  assumes "0 \<le> n" and "\<forall>b \<in> set (libraryBooks s). rating b \<noteq> NaN"
  shows "getTopRatedBooks n s = take (nat n) (sort_desc (libraryBooks s))"
  using assms by (simp add: getTopRatedBooks_def js_sort_by_rating js_slice0_nonneg)

lemma sorted_sort_desc:
  assumes "\<forall>b \<in> set xs. rating b \<noteq> NaN"
  shows "sorted_wrt (\<lambda>a b. num_ge (rating a) (rating b)) (sort_desc xs)"
proof -
  have "sorted (map (\<lambda>b. desc_key (rating b)) (sort_desc xs))"
    by (simp add: sort_desc_def)
  then have s: "sorted_wrt (\<lambda>a b. desc_key (rating a) \<le> desc_key (rating b)) (sort_desc xs)"
    by (simp add: sorted_wrt_map)
  have nn: "rating b \<noteq> NaN" if "b \<in> set (sort_desc xs)" for b
    using assms that by (simp add: sort_desc_def)
  show ?thesis
  proof (rule sorted_wrt_mono_rel [OF _ s])
    fix a b
    assume "a \<in> set (sort_desc xs)" "b \<in> set (sort_desc xs)"
      and "desc_key (rating a) \<le> desc_key (rating b)"
    then show "num_ge (rating a) (rating b)"
      by (simp add: num_ge_desc nn)
  qed
qed

lemma getTopRatedBooks_sorted:
  assumes "0 \<le> n" and "\<forall>b \<in> set (libraryBooks s). rating b \<noteq> NaN"
  shows "sorted_wrt (\<lambda>a b. num_ge (rating a) (rating b)) (getTopRatedBooks n s)"
    and "length (getTopRatedBooks n s) = min (nat n) (length (libraryBooks s))"
proof -
  show "sorted_wrt (\<lambda>a b. num_ge (rating a) (rating b)) (getTopRatedBooks n s)"
    unfolding getTopRatedBooks_nonneg [OF assms]
    by (rule sorted_wrt_take) (rule sorted_sort_desc [OF assms(2)])
  show "length (getTopRatedBooks n s) = min (nat n) (length (libraryBooks s))"
    by (simp add: getTopRatedBooks_nonneg [OF assms] sort_desc_def min.commute)
qed

lemma js_sort_by_rating_stable:
  assumes "\<forall>b \<in> set xs. rating b \<noteq> NaN"
  shows "filter (\<lambda>b. rating b = r) (js_sort by_rating xs) = filter (\<lambda>b. rating b = r) xs"
  using sort_key_stable [of "\<lambda>b. desc_key (rating b)" "desc_key r" xs]
  by (simp add: js_sort_by_rating [OF assms] sort_desc_def desc_key_inj)

text \<open>
  C4 holds for a limit that is not negative over a catalog in which no rating is \<^verbatim>\<open>NaN\<close>:
  by the lemmas above the result is the first \<open>n\<close> books of the stable sort by descending
  rating. It fails for a negative limit. \<^verbatim>\<open>slice(0, limit)\<close> counts a negative end from the
  end of the array, so \<^verbatim>\<open>getTopRatedBooks(-1)\<close> returns every book but the lowest rated,
  where the claim, and the function's own description of \<^verbatim>\<open>limit\<close> as the maximum number of
  books to return, have none.
\<close>

theorem getTopRatedBooks_negative_limit:
  "getTopRatedBooks (- 1) demo_library = [B002, B001]"
  by (simp add: getTopRatedBooks_def js_sort_def js_slice0_def by_rating_def num_pos_def
      demo_library_def B001_def B002_def B003_def)

subsection \<open>Searching\<close>

lemma lower_fields:
  "toLowerCase ''rating'' = ''rating''" "toLowerCase ''Rating'' = ''rating''"
  "toLowerCase ''author'' = ''author''" "toLowerCase ''genre'' = ''genre''"
  "toLowerCase ''year'' = ''year''"
  by (simp_all add: toLowerCase_def lower_char_def)

lemma num_ge_Fin: "num_ge (Fin a) (Fin b) \<longleftrightarrow> b \<le> a"
  by (auto simp: num_ge_def)

text \<open>A filter that ends in an exception ends in one its callback has thrown.\<close>

lemma filter_throw_Inl:
  "filter_throw f xs = Inl e \<Longrightarrow> \<exists>x \<in> set xs. f x = Inl e"
  by (induction xs) (auto split: sum.splits if_splits)

lemma filter_throw_not_InvalidQuery:
  assumes "\<And>x. f x \<noteq> Inl InvalidQuery"
  shows "fst (case filter_throw f xs of Inl e \<Rightarrow> (e, []) | Inr results \<Rightarrow> (Success, results))
           \<noteq> InvalidQuery"
proof (cases "filter_throw f xs")
  case (Inl e)
  from filter_throw_Inl [OF this] assms have "e \<noteq> InvalidQuery" by metis
  with Inl show ?thesis by simp
next
  case (Inr r)
  then show ?thesis by simp
qed

lemma matches_not_InvalidQuery:
  "author_matches cv val b \<noteq> Inl InvalidQuery" "genre_matches cv val b \<noteq> Inl InvalidQuery"
  "year_matches cv v b \<noteq> Inl InvalidQuery"
  by (simp_all add: author_matches_def genre_matches_def year_matches_def split: option.splits)

text \<open>
  A search for the author \<^verbatim>\<open>1984\<close>, a number, compares the authors with the string
  \<^verbatim>\<open>"1984"\<close> and finds none; without the conversion the model gives no result.
\<close>

lemma searchBooksBy_author_number:
  "searchBooksBy decimal_1984 ''author'' (JNum (Fin 1984)) demo_library = (Success, [])
   \<and> fst (searchBooksBy no_conversions ''author'' (JNum (Fin 1984)) demo_library) = Unmodelled"
  by (simp add: searchBooksBy_def author_matches_def decimal_1984_def no_conversions_def
      toLowerCase_def lower_char_def demo_library_def B001_def B002_def B003_def)

text \<open>
  C7. For a number \<open>v\<close>, \<open>searchBooksBy("rating", v)\<close> succeeds with exactly the books whose
  rating is at least \<open>v\<close>, in the order of the catalog; over a catalog with the ratings
  4.5, 4.8 and 3.9 the query for 4.5 gives the first two books, in that order. The
  comparison is that of the doubles (\<open>num_ge_Fin\<close>: on finite numbers, that of their values),
  so a book rated \<^verbatim>\<open>NaN\<close> is in no result and a value \<^verbatim>\<open>NaN\<close> finds no book.
\<close>

theorem searchBooksBy_rating:
  "searchBooksBy cv ''rating'' (JNum v) s
     = (Success, filter (\<lambda>b. num_ge (rating b) v) (libraryBooks s))
   \<and> (map rating (libraryBooks s) = [Fin (45 / 10), Fin (48 / 10), Fin (39 / 10)] \<longrightarrow>
        searchBooksBy cv ''rating'' (JNum (Fin (45 / 10))) s = (Success, take 2 (libraryBooks s)))"
proof -
  have g: "searchBooksBy cv ''rating'' (JNum w) s
      = (Success, filter (\<lambda>b. num_ge (rating b) w) (libraryBooks s))" for w
    by (simp add: searchBooksBy_def lower_fields)
  have "filter (\<lambda>b. num_ge (rating b) (Fin (45 / 10))) bs = take 2 bs"
    if "map rating bs = [Fin (45 / 10), Fin (48 / 10), Fin (39 / 10)]" for bs :: "book list"
  proof -
    from that obtain b1 b2 b3 where "bs = [b1, b2, b3]" "rating b1 = Fin (45 / 10)"
      "rating b2 = Fin (48 / 10)" "rating b3 = Fin (39 / 10)"
      by (auto simp: map_eq_Cons_conv)
    then show ?thesis by (simp add: num_ge_Fin)
  qed
  with g show ?thesis by simp
qed

theorem searchBooksBy_rating_witness:
  "map rating (libraryBooks demo_library) = [Fin (45 / 10), Fin (48 / 10), Fin (39 / 10)]
   \<and> searchBooksBy no_conversions ''rating'' (JNum (Fin (45 / 10))) demo_library
       = (Success, [B001, B002])"
  using searchBooksBy_rating [of no_conversions "Fin (45 / 10)" demo_library]
  by (simp add: demo_library_def B001_def B002_def B003_def num_ge_def)

text \<open>
  C8, as stated, fails: the field is lower-cased before it is compared, so \<^verbatim>\<open>"Rating"\<close>,
  which is not one of the four names, is a valid field.
\<close>

theorem searchBooksBy_field_case:
  "\<not> (fst (searchBooksBy no_conversions ''Rating'' (JNum (Fin 4)) demo_library) = InvalidQuery
       \<longleftrightarrow> spec_invalid_query ''Rating'' (JNum (Fin 4)))"
  by (simp add: searchBooksBy_def lower_fields spec_invalid_query_def)

text \<open>
  C8, amended. \<open>searchBooksBy\<close> reports \<open>InvalidQuery\<close> exactly when the lower-cased field is
  not one of \<open>author\<close>, \<open>genre\<close>, \<open>rating\<close>, \<open>year\<close>, or it is \<open>rating\<close> or \<open>year\<close> and the
  value is not of type number. What it then returns is an empty array, as a search
  without a match does: the outcome, which the script prints, tells the two apart, the
  returned array does not.
\<close>

theorem searchBooksBy_InvalidQuery_iff:
  "(fst (searchBooksBy cv field val s) = InvalidQuery
      \<longleftrightarrow> spec_invalid_query (toLowerCase field) val)
   \<and> (fst (searchBooksBy cv field val s) = InvalidQuery \<longrightarrow> snd (searchBooksBy cv field val s) = [])"
proof -
  note nq = filter_throw_not_InvalidQuery [of _ "libraryBooks s", OF matches_not_InvalidQuery(1)]
    filter_throw_not_InvalidQuery [of _ "libraryBooks s", OF matches_not_InvalidQuery(2)]
    filter_throw_not_InvalidQuery [of _ "libraryBooks s", OF matches_not_InvalidQuery(3)]
  show ?thesis
    by (cases val)
      (simp_all add: searchBooksBy_def spec_invalid_query_def Let_def nq)
qed

theorem searchBooksBy_InvalidQuery_iff_witness:
  "searchBooksBy no_conversions ''Rating'' (JStr ''high'') demo_library = (InvalidQuery, [])
   \<and> spec_invalid_query (toLowerCase ''Rating'') (JStr ''high'')
   \<and> searchBooksBy no_conversions ''title'' (JStr ''Code'') demo_library = (InvalidQuery, [])
   \<and> searchBooksBy no_conversions ''Rating'' (JNum (Fin 5)) demo_library = (Success, [])
   \<and> \<not> spec_invalid_query (toLowerCase ''Rating'') (JNum (Fin 5))"
  using searchBooksBy_InvalidQuery_iff [of no_conversions "''Rating''" "JStr ''high''" demo_library]
    searchBooksBy_InvalidQuery_iff [of no_conversions "''Rating''" "JNum (Fin 5)" demo_library]
  by (simp add: searchBooksBy_def lower_fields spec_invalid_query_def toLowerCase_def lower_char_def
      num_ge_def demo_library_def B001_def B002_def B003_def)

subsection \<open>Well-formed catalogs\<close>

text \<open>
  Every operation keeps a catalog well formed: \<^verbatim>\<open>addBook\<close> admits a candidate only with
  truthy fields and a new id, the other three change no id and no checked field.
\<close>

lemma wf_update:
  assumes "wf_catalog s" and "i < length (libraryBooks s)"
    and "book_id b = book_id (libraryBooks s ! i)" and "checked_book b"
  shows "wf_catalog (s\<lparr>libraryBooks := (libraryBooks s)[i := b], libraryUsers := us\<rparr>)"
proof -
  have "set ((libraryBooks s)[i := b]) \<subseteq> insert b (set (libraryBooks s))"
    by (rule set_update_subset_insert)
  with assms(1,4) have "list_all checked_book ((libraryBooks s)[i := b])"
    unfolding wf_catalog_def list_all_iff by blast
  with assms(1,2,3) show ?thesis
    by (simp add: wf_catalog_def map_book_id_update)
qed

lemma addBook_wf:
  assumes "wf_catalog s"
  shows "wf_catalog (snd (addBook c s))"
proof (cases "fst (addBook c s) = Success")
  case False
  then have "snd (addBook c s) = s" by (auto simp: addBook_def split: if_splits)
  with assms show ?thesis by simp
next
  case True
  then obtain nb where nb: "snd (addBook c s) = s\<lparr>libraryBooks := libraryBooks s @ [nb]\<rparr>"
    "book_id nb = cand_id c" "checked_book nb" "findBookById (cand_id c) s = None"
    "truthy (cand_id c)"
    by (auto simp: addBook_def checked_book_def split: if_splits)
  from nb(4) have "cand_id c \<notin> book_id ` set (libraryBooks s)"
    by (simp add: findBookById_None [OF truthy_not_NaN [OF nb(5)]])
  with assms nb(2,3) show ?thesis
    by (simp add: nb(1) wf_catalog_def)
qed

lemma borrowBook_wf:
  assumes "wf_catalog s"
  shows "wf_catalog (snd (borrowBook env now userName bId s))"
proof (cases "fst (borrowBook env now userName bId s) = Success")
  case False
  then have "snd (borrowBook env now userName bId s) = s"
    by (auto simp: borrowBook_def Let_def split: option.splits if_splits)
  with assms show ?thesis by simp
next
  case True
  then have "borrowBook env now userName bId s
      = (Success, snd (borrowBook env now userName bId s))"
    by (metis prod.collapse)
  then obtain ui bi where bi: "findBookById bId s = Some bi"
    and s1: "snd (borrowBook env now userName bId s)
      = s\<lparr>libraryBooks := (libraryBooks s)
               [bi := (libraryBooks s ! bi)\<lparr>isAvailable := False,
                        borrowCount := borrowCount (libraryBooks s ! bi) + 1\<rparr>],
             libraryUsers := (libraryUsers s)
               [ui := (libraryUsers s ! ui)\<lparr>borrowedBooks := borrowedBooks (libraryUsers s ! ui) @
                  [\<lparr>bookId = book_id (libraryBooks s ! bi), borrowDate = now,
                    dueDate = calculateDueDate env now\<rparr>]\<rparr>]\<rparr>"
    by (rule borrowBook_SuccessE)
  from findBookById_Some(1) [OF bi] have l: "bi < length (libraryBooks s)" .
  with assms have "checked_book (libraryBooks s ! bi)"
    by (simp add: wf_catalog_def list_all_length)
  then have "checked_book ((libraryBooks s ! bi)\<lparr>isAvailable := False,
      borrowCount := borrowCount (libraryBooks s ! bi) + 1\<rparr>)"
    by (simp add: checked_book_def)
  with assms l show ?thesis
    unfolding s1 by (intro wf_update) simp_all
qed

lemma returnBook_wf:
  assumes "wf_catalog s"
  shows "wf_catalog (snd (returnBook env now userName bId s))"
proof (cases "fst (returnBook env now userName bId s) = Success")
  case False
  then have "snd (returnBook env now userName bId s) = s"
    by (auto simp: returnBook_def Let_def split: option.splits if_splits prod.splits)
  with assms show ?thesis by simp
next
  case True
  then obtain ui bi k where f: "findUserByName userName s = Some ui"
      "findBookById bId s = Some bi"
      "find_index (\<lambda>entry. strict_eq (bookId entry) bId) (borrowedBooks (libraryUsers s ! ui))
         = Some k"
    by (auto simp: returnBook_def Let_def split: option.splits if_splits prod.splits)
  from findBookById_Some(1) [OF f(2)] have l: "bi < length (libraryBooks s)" .
  with assms have "checked_book (libraryBooks s ! bi)"
    by (simp add: wf_catalog_def list_all_length)
  then have "checked_book ((libraryBooks s ! bi)\<lparr>isAvailable := True\<rparr>)"
    by (simp add: checked_book_def)
  with assms l show ?thesis
    unfolding returnBook_Success [OF f] snd_conv by (intro wf_update) simp_all
qed

lemma removeBook_wf:
  assumes "wf_catalog s"
  shows "wf_catalog (snd (removeBook bId s))"
proof (cases "fst (removeBook bId s) = Success")
  case False
  then have "snd (removeBook bId s) = s"
    by (auto simp: removeBook_def Let_def split: option.splits if_splits)
  with assms show ?thesis by simp
next
  case True
  then obtain i where i: "find_index (\<lambda>b. strict_eq (book_id b) bId) (libraryBooks s) = Some i"
    "snd (removeBook bId s) = s\<lparr>libraryBooks := splice1 i (libraryBooks s)\<rparr>"
    by (auto simp: removeBook_def Let_def split: option.splits if_splits)
  from find_index_Some [OF i(1)] have l: "i < length (libraryBooks s)" by simp
  from set_splice1 [OF l] have "set (splice1 i (libraryBooks s)) \<subseteq> set (libraryBooks s)"
    by auto
  with assms have "list_all checked_book (splice1 i (libraryBooks s))"
    unfolding wf_catalog_def list_all_iff by blast
  with assms show ?thesis
    by (simp add: i(2) wf_catalog_def distinct_map_splice1)
qed

lemma apply_op_wf: "wf_catalog s \<Longrightarrow> wf_catalog (apply_op env x s)"
  by (cases x) (simp_all add: addBook_wf borrowBook_wf returnBook_wf removeBook_wf)

lemma run_wf: "wf_catalog s \<Longrightarrow> wf_catalog (run env xs s)"
  by (induction xs arbitrary: s) (simp_all add: apply_op_wf)

subsection \<open>Recommendations\<close>

text \<open>
  In a well-formed catalog no id is \<^verbatim>\<open>NaN\<close>, no genre is \<^verbatim>\<open>null\<close>, and an id names one
  book.
\<close>

lemma wf_book:
  assumes "wf_catalog s" and "b \<in> set (libraryBooks s)"
  shows "book_id b \<noteq> JNum NaN" and "genre b \<noteq> JNull"
proof -
  from assms have "truthy (book_id b)" "truthy (genre b)"
    by (simp_all add: wf_catalog_def list_all_iff checked_book_def)
  then show "book_id b \<noteq> JNum NaN" "genre b \<noteq> JNull"
    by auto
qed

lemma wf_same_id:
  assumes "wf_catalog s" and "a \<in> set (libraryBooks s)" and "b \<in> set (libraryBooks s)"
    and "book_id a = book_id b"
  shows "a = b"
proof -
  from assms(1) have "inj_on book_id (set (libraryBooks s))"
    by (simp add: wf_catalog_def distinct_map)
  from inj_onD [OF this assms(4,2,3)] show ?thesis .
qed

lemma unborrowed_iff:
  "book_id b \<noteq> JNum NaN \<Longrightarrow>
     unborrowed u b \<longleftrightarrow> isAvailable b \<and> book_id b \<notin> bookId ` set (borrowedBooks u)"
  unfolding unborrowed_def list_ex_iff image_iff strict_eq_def by metis

lemma filter_unborrowed:
  assumes "wf_catalog s"
  shows "filter (unborrowed u) (libraryBooks s) = spec_candidates u s"
  unfolding spec_candidates_def
  by (rule filter_cong [OF refl]) (simp add: unborrowed_iff wf_book(1) [OF assms])

text \<open>
  The genres \<^verbatim>\<open>recommendBooks\<close> collects, entry by entry through \<^verbatim>\<open>findBookById\<close>, are in a
  well-formed catalog the genres of the books whose id is among the user's entries.
\<close>

lemma set_borrowedGenres:
  assumes wf: "wf_catalog s"
  shows "set (borrowedGenres u s) = spec_genres u s"
proof (intro set_eqI iffI)
  fix g
  assume "g \<in> set (borrowedGenres u s)"
  then obtain e :: borrowEntry where e: "e \<in> set (borrowedBooks u)"
    and g: "g = (case findBookById (bookId e) s of
                   Some bi \<Rightarrow> genre (libraryBooks s ! bi) | None \<Rightarrow> JNull)" "g \<noteq> JNull"
    by (auto simp: borrowedGenres_def)
  then obtain bi where bi: "findBookById (bookId e) s = Some bi"
    "g = genre (libraryBooks s ! bi)"
    by (cases "findBookById (bookId e) s") simp_all
  from findBookById_Some [OF bi(1)]
  have "libraryBooks s ! bi \<in> set (libraryBooks s)"
    "book_id (libraryBooks s ! bi) = bookId e"
    by simp_all
  with e have "libraryBooks s ! bi \<in> set (spec_borrowed u s)"
    by (simp add: spec_borrowed_def)
  with bi(2) show "g \<in> spec_genres u s"
    by (simp add: spec_genres_def)
next
  fix g
  assume "g \<in> spec_genres u s"
  then obtain b where b: "b \<in> set (libraryBooks s)"
    "book_id b \<in> bookId ` set (borrowedBooks u)" "g = genre b"
    by (auto simp: spec_genres_def spec_borrowed_def)
  from b(2) obtain e :: borrowEntry where e: "e \<in> set (borrowedBooks u)" "bookId e = book_id b"
    unfolding image_iff by metis
  from wf_book [OF wf b(1)] have nn: "book_id b \<noteq> JNum NaN" and gn: "genre b \<noteq> JNull"
    by simp_all
  from b(1) have "findBookById (book_id b) s \<noteq> None"
    by (simp add: findBookById_None [OF nn])
  then obtain bi where bi: "findBookById (book_id b) s = Some bi"
    by auto
  from findBookById_Some [OF bi]
  have "libraryBooks s ! bi \<in> set (libraryBooks s)" "book_id (libraryBooks s ! bi) = book_id b"
    by simp_all
  from wf_same_id [OF wf this(1) b(1) this(2)] have "libraryBooks s ! bi = b" .
  with bi e(2) have "(case findBookById (bookId e) s of
      Some bi \<Rightarrow> genre (libraryBooks s ! bi) | None \<Rightarrow> JNull) = g"
    by (simp add: b(3))
  with e(1) have "g \<in> (\<lambda>entry. case findBookById (bookId entry) s of
      Some bi \<Rightarrow> genre (libraryBooks s ! bi) | None \<Rightarrow> JNull) ` set (borrowedBooks u)"
    by (rule rev_image_eqI [OF _ sym])
  with gn b(3) show "g \<in> set (borrowedGenres u s)"
    by (simp add: borrowedGenres_def)
qed

lemma sort_desc_Nil_iff: "sort_desc xs = [] \<longleftrightarrow> xs = []"
  unfolding sort_desc_def by (metis length_0_conv length_sort)

text \<open>
  For a registered user, in a well-formed catalog in which no rating is \<^verbatim>\<open>NaN\<close>,
  \<open>recommendBooks\<close> succeeds with what the specification describes: when the user's
  borrowed books have no genre between them, the five best rated available books the user
  does not hold; otherwise all available books the user does not hold whose genre is among
  those genres, best rated first and however many; and when there is no such book, the same
  five best.
\<close>

lemma recommendBooks_rated:
  assumes u: "findUserByName userName s = Some ui"
    and wf: "wf_catalog s"
    and rated: "\<forall>b \<in> set (libraryBooks s). rating b \<noteq> NaN"
  shows "recommendBooks userName s = (Success, spec_recommend (libraryUsers s ! ui) s)"
proof -
  let ?u = "libraryUsers s ! ui"
  note g = set_borrowedGenres [OF wf, of ?u]
  then have e: "borrowedGenres ?u s = [] \<longleftrightarrow> spec_genres ?u s = {}"
    by (metis set_empty)
  have "filter (\<lambda>book. unborrowed ?u book \<and> genre book \<in> set (borrowedGenres ?u s)) (libraryBooks s)
      = filter (\<lambda>b. genre b \<in> spec_genres ?u s) (filter (unborrowed ?u) (libraryBooks s))"
    by (simp add: g conj_commute)
  then have m: "filter (\<lambda>book. unborrowed ?u book \<and> genre book \<in> set (borrowedGenres ?u s))
        (libraryBooks s)
      = filter (\<lambda>b. genre b \<in> spec_genres ?u s) (spec_candidates ?u s)"
    by (simp only: filter_unborrowed [OF wf])
  have c: "\<forall>b \<in> set (spec_candidates ?u s). rating b \<noteq> NaN"
    using rated by (simp add: spec_candidates_def)
  then have f: "\<forall>b \<in> set (filter (\<lambda>b. genre b \<in> spec_genres ?u s) (spec_candidates ?u s)).
      rating b \<noteq> NaN"
    by simp
  show ?thesis
    using u e
    by (simp add: recommendBooks_def Let_def m filter_unborrowed [OF wf]
        js_sort_by_rating [OF c] js_sort_by_rating [OF f] js_slice0_nonneg
        spec_recommend_def spec_top5_def sort_desc_Nil_iff)
qed

text \<open>
  John Doe holds the fantasy title B001: the one other fantasy title of the catalog, B007,
  is what he is recommended.
\<close>

lemma recommendBooks_fantasy:
  "recommendBooks ''John Doe'' fantasy_library = (Success, [B007])"
  by (simp add: recommendBooks_def borrowedGenres_def unborrowed_def findUserByName_def
      findBookById_def toLowerCase_john_doe strict_eq_def js_sort_def js_slice0_def
      fantasy_library_def B001_def B002_def B003_def B007_def U001_def Let_def)

lemma spec_recommend_fantasy:
  "spec_recommend (libraryUsers fantasy_library ! 0) fantasy_library = [B007]"
  by (simp add: spec_recommend_def spec_top5_def spec_candidates_def spec_genres_def
      spec_borrowed_def sort_desc_def fantasy_library_def B001_def B002_def B003_def B007_def
      U001_def)

text \<open>
  With the unrated book in the catalog the specification's rule still puts the best rated
  book first.
\<close>

lemma spec_recommend_unrated:
  "spec_recommend (libraryUsers unrated_library ! 0) unrated_library = [B002, B003, B011]"
  by (simp add: spec_recommend_def spec_top5_def spec_candidates_def spec_genres_def
      spec_borrowed_def sort_desc_def unrated_library_def B002_def B003_def B011_def U001_def)

text \<open>
  An array in which the comparator puts no element after its right neighbour is left as
  it is: insertion from the right moves nothing, as a sort that looks for runs of
  neighbours in order (the one of V8, the engine of Node) finds a single run.
\<close>

lemma js_sort_neighbours:
  "successively (\<lambda>x y. \<not> num_pos (cmp x y)) xs \<Longrightarrow> js_sort cmp xs = xs"
proof (induction xs)
  case Nil
  show ?case by (simp add: js_sort_def)
next
  case (Cons x xs)
  from Cons.prems have "successively (\<lambda>x y. \<not> num_pos (cmp x y)) xs"
    by (cases xs) simp_all
  with Cons.IH have ih: "js_sort cmp xs = xs" .
  have "js_sort cmp (x # xs) = js_insert cmp x (js_sort cmp xs)"
    by (simp add: js_sort_def)
  also have "\<dots> = js_insert cmp x xs"
    by (simp only: ih)
  also from Cons.prems have "\<dots> = x # xs"
    by (cases xs) simp_all
  finally show ?case .
qed

text \<open>
  C9 fails where a rating is \<^verbatim>\<open>NaN\<close>, which \<^verbatim>\<open>addBook\<close> stores: \<^verbatim>\<open>typeof NaN\<close> is
  \<^verbatim>\<open>'number'\<close>. The comparator \<^verbatim>\<open>(a, b) => b.rating - a.rating\<close> then answers \<^verbatim>\<open>NaN\<close> for
  every pair with that book, which the sort takes for "equal", and the books on either side
  of it are never compared with each other. Three books are added to an empty catalog,
  rated 3.9, \<^verbatim>\<open>NaN\<close> and 4.8, and John Doe, who has borrowed nothing, asks for
  recommendations: he gets the three in the order they were added, the book rated 3.9
  before the one rated 4.8, where the claim, and the comment \<^verbatim>\<open>// Sort by rating high to low\<close>
  in the function itself, have the better rated first.
\<close>

theorem recommendBooks_unrated:
  "run utc_runtime [AddBook (candidate_of B003), AddBook unrated, AddBook (candidate_of B002)]
       \<lparr>libraryBooks = [], libraryUsers = [U001]\<rparr> = unrated_library
   \<and> recommendBooks ''John Doe'' unrated_library = (Success, [B003, B011, B002])
   \<and> rating B003 = Fin (39 / 10) \<and> rating B002 = Fin (48 / 10)
   \<and> num_lt (rating B003) (rating B002)"
  by (simp add: addBook_def findBookById_def candidate_of_def unrated_def unrated_library_def
      recommendBooks_def borrowedGenres_def unborrowed_def findUserByName_def
      toLowerCase_john_doe strict_eq_def js_sort_def js_slice0_def by_rating_def num_pos_def
      B002_def B003_def B011_def U001_def Let_def)

subsection \<open>The queries leave the catalog alone\<close>

lemma top_unborrowed_store_lib: "lib (snd (top_unborrowed_store usr st)) = lib st"
  by (simp add: top_unborrowed_store_def array_filter_def array_sort_def array_slice0_def
      new_array_def Let_def split: prod.splits)

lemma searchBooksBy_store_lib: "lib (snd (snd (searchBooksBy_store cv param val st))) = lib st"
  by (cases val)
    (simp_all add: searchBooksBy_store_def array_filter_def array_filter_throw_def new_array_def
      Let_def split: prod.splits sum.splits)

lemma getTopRatedBooks_store_lib: "lib (snd (getTopRatedBooks_store limit st)) = lib st"
  by (simp add: getTopRatedBooks_store_def array_spread_def array_sort_def array_slice0_def
      new_array_def Let_def split: prod.splits)

lemma getMostPopularBooks_store_lib: "lib (snd (getMostPopularBooks_store limit st)) = lib st"
  by (simp add: getMostPopularBooks_store_def array_spread_def array_sort_def array_slice0_def
      new_array_def Let_def split: prod.splits)

lemma recommendBooks_store_lib: "lib (snd (snd (recommendBooks_store userName st))) = lib st"
  by (simp add: recommendBooks_store_def array_filter_def array_sort_def
      new_array_def Let_def top_unborrowed_store_lib split: prod.splits option.splits)

text \<open>
  C10. Over the array store, whatever the arguments and the outcome, the catalog after
  \<open>searchBooksBy\<close>, \<open>getTopRatedBooks\<close>, \<open>getMostPopularBooks\<close> and \<open>recommendBooks\<close> is the
  catalog before: the same books in the same order with the same flags and counts, the
  same users with the same entries and points. The arrays the ranking queries sort are
  copies.
\<close>

theorem queries_leave_catalog:
  "lib (snd (snd (searchBooksBy_store cv param val st))) = lib st
   \<and> lib (snd (getTopRatedBooks_store limit st)) = lib st
   \<and> lib (snd (getMostPopularBooks_store limit st)) = lib st
   \<and> lib (snd (snd (recommendBooks_store userName st))) = lib st"
  by (simp add: searchBooksBy_store_lib getTopRatedBooks_store_lib getMostPopularBooks_store_lib
      recommendBooks_store_lib)

theorem queries_leave_catalog_witness:
  "lib (snd (snd (searchBooksBy_store no_conversions ''genre'' (JStr ''mystery'') demo_store)))
     = lent_library
   \<and> lib (snd (getTopRatedBooks_store 2 demo_store)) = lent_library
   \<and> lib (snd (getMostPopularBooks_store 2 demo_store)) = lent_library
   \<and> lib (snd (snd (recommendBooks_store ''John Doe'' demo_store))) = lent_library"
  using queries_leave_catalog [of no_conversions "''genre''" "JStr ''mystery''" demo_store 2
      "''John Doe''"]
  by (simp add: demo_store_def)

text \<open>
  The arrays the store queries return hold what the queries of the value level return, and
  their outcomes agree.
\<close>

lemma getTopRatedBooks_store_result:
  "read_array (snd (getTopRatedBooks_store limit st)) (fst (getTopRatedBooks_store limit st))
     = getTopRatedBooks limit (lib st)"
  by (simp add: getTopRatedBooks_store_def getTopRatedBooks_def array_spread_def array_sort_def
      array_slice0_def new_array_def Let_def split: prod.splits)

lemma getMostPopularBooks_store_result:
  "read_array (snd (getMostPopularBooks_store limit st)) (fst (getMostPopularBooks_store limit st))
     = getMostPopularBooks limit (lib st)"
  by (simp add: getMostPopularBooks_store_def getMostPopularBooks_def array_spread_def array_sort_def
      array_slice0_def new_array_def Let_def split: prod.splits)

lemma searchBooksBy_store_result:
  "fst (searchBooksBy_store cv param val st) = fst (searchBooksBy cv param val (lib st))
   \<and> read_array (snd (snd (searchBooksBy_store cv param val st)))
        (fst (snd (searchBooksBy_store cv param val st)))
      = snd (searchBooksBy cv param val (lib st))"
  by (cases val)
    (simp_all add: searchBooksBy_store_def searchBooksBy_def array_filter_def
      array_filter_throw_def new_array_def Let_def split: prod.splits sum.splits)

lemma top_unborrowed_store_result:
  "read_array (snd (top_unborrowed_store usr st)) (fst (top_unborrowed_store usr st))
     = js_slice0 (js_sort by_rating (filter (unborrowed usr) (libraryBooks (lib st)))) 5"
  by (simp add: top_unborrowed_store_def array_filter_def array_sort_def array_slice0_def
      new_array_def Let_def split: prod.splits)

lemma recommendBooks_store_result:
  "fst (recommendBooks_store userName st) = fst (recommendBooks userName (lib st))
   \<and> read_array (snd (snd (recommendBooks_store userName st)))
        (fst (snd (recommendBooks_store userName st)))
      = snd (recommendBooks userName (lib st))"
  by (simp add: recommendBooks_store_def recommendBooks_def array_filter_def array_sort_def
      new_array_def Let_def top_unborrowed_store_result split: prod.splits option.splits)

text \<open>
  The store does tell a sort of the catalog itself from a sort of a copy: sorting
  \<^verbatim>\<open>libraryBooks\<close> in place reorders the catalog.
\<close>

lemma sort_in_place_reorders_catalog:
  "libraryBooks (lib (snd (array_sort by_rating LibraryBooks demo_store)))
     = [B002\<lparr>isAvailable := False, borrowCount := 1\<rparr>, B001, B003]"
  by (simp add: array_sort_def demo_store_def lent_library_def js_sort_def by_rating_def
      num_pos_def B001_def B002_def B003_def)

end
